theory Spec2Isabelle
  imports Complex_Main "HOL-Library.Word"
begin

section \<open>Audio utilities (services/audioUtils.ts)\<close>

text \<open>
  Conventions of the embedding.
  \<^item> A \<open>Uint8Array\<close> is a list of 8-bit words, an \<open>Int16Array\<close> a list of 16-bit words.
  \<^item> A JavaScript "binary string" (the argument of \<open>btoa\<close>, the result of \<open>atob\<close>) is the
    list of its code units, as natural numbers. Base64 text is a \<open>string\<close>.
  \<^item> A thrown value is a \<open>thrown\<close>; a function that can throw returns \<open>thrown + 'a\<close>.
  \<^item> Finite floating-point samples and clock values are rationals: every operation the
    code performs on them here (multiplying a 32-bit float by \<open>32768\<close>, dividing a 16-bit
    integer by \<open>32768\<close>, \<open>Math.max\<close>) is exact on the values involved; the one sum,
    \<open>nextStartTime + duration\<close>, is taken without rounding.
\<close>

type_synonym byte = "8 word"
type_synonym int16 = "16 word"
type_synonym code_units = "nat list"

datatype thrown = Error string | NonError

subsection \<open>The platform's \<open>btoa\<close> and \<open>atob\<close>\<close>

text \<open>
  \<open>btoa\<close> and \<open>atob\<close> are built-ins of the browser, not code of the repository. They are
  modelled after their definition in the HTML standard: \<open>btoa\<close> throws on a code unit
  above \<open>255\<close> and otherwise encodes with padding; \<open>atob\<close> is the forgiving decoder (ASCII
  whitespace removed, one or two trailing \<open>=\<close> dropped when the length is a multiple of
  four, failure on a length congruent to one modulo four or on a foreign character).
\<close>

definition b64_alphabet :: string where
  "b64_alphabet = ''ABCDEFGHIJKLMNOPQRSTUVWXYZabcdefghijklmnopqrstuvwxyz0123456789+/''"

definition b64_char :: "nat \<Rightarrow> char" where
  "b64_char n = b64_alphabet ! n"

definition b64_index :: "char \<Rightarrow> nat option" where
  "b64_index c = map_of (zip b64_alphabet [0..<64]) c"

fun b64_sextets :: "nat list \<Rightarrow> nat list" where
  "b64_sextets (a # b # c # r) =
     (a div 4) # ((a mod 4) * 16 + b div 16) # ((b mod 16) * 4 + c div 64) # (c mod 64)
       # b64_sextets r"
| "b64_sextets [a, b] = [a div 4, (a mod 4) * 16 + b div 16, (b mod 16) * 4]"
| "b64_sextets [a] = [a div 4, (a mod 4) * 16]"
| "b64_sextets [] = []"

definition b64_padding :: "nat list \<Rightarrow> string" where
  "b64_padding xs = replicate ((3 - length xs mod 3) mod 3) (CHR ''='')"

definition btoa :: "code_units \<Rightarrow> thrown + string" where
  "btoa s = (if list_ex (\<lambda>c. 255 < c) s then Inl (Error ''InvalidCharacterError'')
             else Inr (map b64_char (b64_sextets s) @ b64_padding s))"

definition ascii_whitespace :: "char \<Rightarrow> bool" where
  "ascii_whitespace c = (c \<in> set [CHR 0x09, CHR 0x0A, CHR 0x0C, CHR 0x0D, CHR 0x20])"

definition strip_padding :: "string \<Rightarrow> string" where
  "strip_padding d =
     (if length d mod 4 = 0 then
        (case rev d of
           c1 # c2 # r \<Rightarrow>
             if c1 = CHR ''='' \<and> c2 = CHR ''='' then rev r
             else if c1 = CHR ''='' then rev (c2 # r)
             else d
         | _ \<Rightarrow> d)
      else d)"

fun b64_octets :: "nat list \<Rightarrow> nat list" where
  "b64_octets (p # q # r # s # rest) =
     (p * 4 + q div 16) # ((q mod 16) * 16 + r div 4) # ((r mod 4) * 64 + s)
       # b64_octets rest"
| "b64_octets [p, q, r] = [p * 4 + q div 16, (q mod 16) * 16 + r div 4]"
| "b64_octets [p, q] = [p * 4 + q div 16]"
| "b64_octets _ = []"

definition atob :: "string \<Rightarrow> thrown + code_units" where
  "atob b =
     (let d = strip_padding (filter (\<lambda>c. \<not> ascii_whitespace c) b) in
      if length d mod 4 = 1 \<or> list_ex (\<lambda>c. b64_index c = None) d
      then Inl (Error ''InvalidCharacterError'')
      else Inr (b64_octets (map (\<lambda>c. the (b64_index c)) d)))"

subsection \<open>\<open>decode\<close> and \<open>encode\<close>\<close>

text \<open>
  \<open>decode\<close>: \<open>atob\<close>, then \<open>bytes[i] = binaryString.charCodeAt(i)\<close>; a store into a
  \<open>Uint8Array\<close> keeps the value modulo \<open>256\<close>.
  \<open>encode\<close>: \<open>binary += String.fromCharCode(bytes[i])\<close>, then \<open>btoa\<close>.
\<close>

definition decode :: "string \<Rightarrow> thrown + byte list" where
  "decode base64 =
     (case atob base64 of
        Inl e \<Rightarrow> Inl e
      | Inr binaryString \<Rightarrow> Inr (map (\<lambda>c. word_of_nat c) binaryString))"

definition encode :: "byte list \<Rightarrow> thrown + string" where
  "encode bytes = btoa (map unat bytes)"

subsection \<open>\<open>decodeAudioData\<close>\<close>

record audio_buffer =
  numberOfChannels :: nat
  sampleRate :: nat
  channels :: "rat list list"

definition buffer_length :: "audio_buffer \<Rightarrow> nat" where
  "buffer_length b = (case channels b of [] \<Rightarrow> 0 | c # _ \<Rightarrow> length c)"

definition duration :: "audio_buffer \<Rightarrow> rat" where
  "duration b = of_nat (buffer_length b) / of_nat (sampleRate b)"

text \<open>
  \<open>new Int16Array(data.buffer)\<close> throws a \<open>RangeError\<close> when the byte length is odd;
  otherwise it reads the bytes in pairs, low byte first.
\<close>

fun int16_pairs :: "byte list \<Rightarrow> int16 list" where
  "int16_pairs (lo # hi # r) = (ucast lo + push_bit 8 (ucast hi)) # int16_pairs r"
| "int16_pairs _ = []"

definition Int16Array_of_buffer :: "byte list \<Rightarrow> thrown + int16 list" where
  "Int16Array_of_buffer bytes =
     (if odd (length bytes) then Inl (Error ''RangeError'') else Inr (int16_pairs bytes))"

text \<open>
  \<open>ctx.createBuffer(numChannels, frameCount, sampleRate)\<close> is a call of the platform.
  The frame count, the quotient \<open>dataInt16.length / numChannels\<close>, need not be whole:
  the call converts it to an unsigned integer (it truncates), and throws
  \<open>NotSupportedError\<close> for no channel, no frame or a zero rate. The loop that fills a
  channel runs while \<open>i < frameCount\<close>; when the quotient is not whole its last round
  writes past the end of the channel, which a typed array ignores. Every caller in the
  repository passes the rate \<open>24000\<close> and one channel.
\<close>

definition createBuffer :: "nat \<Rightarrow> nat \<Rightarrow> nat \<Rightarrow> thrown + unit" where
  "createBuffer numChannels frames rate =
     (if numChannels = 0 \<or> frames = 0 \<or> rate = 0 then Inl (Error ''NotSupportedError'')
      else Inr ())"

definition decodeAudioData :: "byte list \<Rightarrow> nat \<Rightarrow> nat \<Rightarrow> thrown + audio_buffer" where
  "decodeAudioData data rate numChannels =
     (case Int16Array_of_buffer data of
        Inl e \<Rightarrow> Inl e
      | Inr dataInt16 \<Rightarrow>
          (let frameCount = length dataInt16 div numChannels in
           case createBuffer numChannels frameCount rate of
             Inl e \<Rightarrow> Inl e
           | Inr _ \<Rightarrow>
               Inr \<lparr> numberOfChannels = numChannels, sampleRate = rate,
                     channels =
                       map (\<lambda>channel.
                              map (\<lambda>i. of_int (sint (dataInt16 ! (i * numChannels + channel))) / 32768)
                                [0..<frameCount])
                         [0..<numChannels] \<rparr>))"

subsection \<open>\<open>createBlob\<close>\<close>

text \<open>
  \<open>int16[i] = data[i] * 32768\<close>: a store into an \<open>Int16Array\<close> truncates the number
  towards zero and keeps it modulo \<open>2^16\<close>. The bytes of \<open>int16.buffer\<close> are the 16-bit
  values, low byte first. Samples are the finite values of a \<open>Float32Array\<close>; a
  \<open>NaN\<close> or an infinity, which such a store turns into \<open>0\<close>, is not represented.
\<close>

definition trunc_int :: "rat \<Rightarrow> int" where
  "trunc_int x = (if 0 \<le> x then \<lfloor>x\<rfloor> else \<lceil>x\<rceil>)"

definition ToInt16 :: "rat \<Rightarrow> int16" where
  "ToInt16 x = word_of_int (trunc_int x)"

fun int16_bytes :: "int16 list \<Rightarrow> byte list" where
  "int16_bytes [] = []"
| "int16_bytes (w # r) = ucast w # ucast (drop_bit 8 w) # int16_bytes r"

record blob =
  data :: string
  mimeType :: string

definition createBlob_int16 :: "rat list \<Rightarrow> int16 list" where
  "createBlob_int16 samples = map (\<lambda>s. ToInt16 (s * 32768)) samples"

definition createBlob :: "rat list \<Rightarrow> thrown + blob" where
  "createBlob samples =
     (case encode (int16_bytes (createBlob_int16 samples)) of
        Inl e \<Rightarrow> Inl e
      | Inr b64 \<Rightarrow> Inr \<lparr> data = b64, mimeType = ''audio/pcm;rate=16000'' \<rparr>)"

section \<open>The live voice session (services/geminiService.ts, class LiveChatService)\<close>

text \<open>
  The object's fields are a record. Objects of the platform (audio contexts, nodes, the
  media stream, the channel promise, buffer sources) are handles chosen by the
  environment. What a method does to the outside (console, the two observer callbacks,
  calls on platform objects) is the list of events it returns next to the new state.
  The \<open>Set\<close> of sources is a list without duplicates, in insertion order, which is the
  order in which a JavaScript \<open>Set\<close> is iterated.
\<close>

type_synonym handle = nat
type_synonym time = rat

datatype event =
    ConsoleWarn string
  | ConsoleError string
  | ConsoleDebug string
  | SetError "string option"
  | TranscriptionUpdate string string
  | ContextCreated handle nat
  | ContextClosed handle
  | NodeConnected handle
  | NodeDisconnected handle
  | AudioProcessCleared handle
  | MicrophoneOpened handle
  | TracksStopped handle
  | ChannelRequested handle string
  | ChannelCloseRequested handle
  | SourceStart handle audio_buffer time
  | SourceStop handle
  | RealtimeInputSent handle blob

record live_chat =
  sessionPromise :: "handle option"
  inputAudioContext :: "handle option"
  outputAudioContext :: "handle option"
  scriptProcessor :: "handle option"
  mediaStreamSource :: "handle option"
  mediaStream :: "handle option"
  outputNode :: "handle option"
  sources :: "handle list"
  nextStartTime :: time
  currentInputTranscription :: string
  currentOutputTranscription :: string

definition initial :: live_chat where
  "initial = \<lparr> sessionPromise = None, inputAudioContext = None, outputAudioContext = None,
       scriptProcessor = None, mediaStreamSource = None, mediaStream = None,
       outputNode = None, sources = [], nextStartTime = 0,
       currentInputTranscription = [], currentOutputTranscription = [] \<rparr>"

subsection \<open>\<open>stopSessionCleanup\<close> and \<open>stopSession\<close>\<close>

definition stopSessionCleanup :: "live_chat \<Rightarrow> live_chat \<times> event list" where
  "stopSessionCleanup s =
     (let ev1 = (case scriptProcessor s of
                   Some p \<Rightarrow> [AudioProcessCleared p, NodeDisconnected p] | None \<Rightarrow> []);
          ev2 = (case mediaStreamSource s of Some n \<Rightarrow> [NodeDisconnected n] | None \<Rightarrow> []);
          ev3 = (case mediaStream s of Some m \<Rightarrow> [TracksStopped m] | None \<Rightarrow> []);
          ev4 = (case inputAudioContext s of Some c \<Rightarrow> [ContextClosed c] | None \<Rightarrow> []);
          ev5 = (case outputAudioContext s of
                   Some c \<Rightarrow> map SourceStop (sources s) @ [ContextClosed c] | None \<Rightarrow> []);
          ev6 = (case outputNode s of Some n \<Rightarrow> [NodeDisconnected n] | None \<Rightarrow> []);
          ev7 = [TranscriptionUpdate (currentInputTranscription s) (currentOutputTranscription s),
                 ConsoleDebug ''Live session cleanup complete.'']
      in (s \<lparr> scriptProcessor := None, mediaStreamSource := None, mediaStream := None,
              inputAudioContext := None,
              sources := (case outputAudioContext s of Some c \<Rightarrow> [] | None \<Rightarrow> sources s),
              nextStartTime := (case outputAudioContext s of Some c \<Rightarrow> 0 | None \<Rightarrow> nextStartTime s),
              outputAudioContext := None, outputNode := None,
              currentInputTranscription := [], currentOutputTranscription := [] \<rparr>,
          ev1 @ ev2 @ ev3 @ ev4 @ ev5 @ ev6 @ ev7))"

definition stopSession :: "live_chat \<Rightarrow> live_chat \<times> event list" where
  "stopSession s =
     (case sessionPromise s of
        Some p \<Rightarrow>
          (let (s', ev) = stopSessionCleanup (s \<lparr> sessionPromise := None \<rparr>)
           in (s', ChannelCloseRequested p # ev))
      | None \<Rightarrow> stopSessionCleanup s)"

subsection \<open>\<open>startSession\<close>\<close>

text \<open>
  The calls of \<open>startSession\<close> that can throw inside its \<open>try\<close> block are the two
  \<open>AudioContext\<close> constructions, the awaited \<open>getUserMedia\<close> and the construction of the
  client; \<open>ai.live.connect\<close> is not awaited and hands back the channel promise at once.
  The environment fixes what each of them gives. The method suspends once, at
  \<open>await getUserMedia\<close>: \<open>startSession_begin\<close> runs up to that point and
  \<open>startSession_resume\<close> from there, on the state as it is then.
\<close>

record start_env =
  new_input_context :: "thrown + handle"
  new_output_context :: "thrown + handle"
  new_gain :: handle
  get_user_media :: "thrown + handle"
  new_client :: "thrown + unit"
  live_connect :: handle

datatype start_result = AwaitingMicrophone | Returned "bool option"

definition error_message :: "thrown \<Rightarrow> string" where
  "error_message err = (case err of Error m \<Rightarrow> m | NonError \<Rightarrow> ''An unknown error occurred.'')"

definition startSession_catch ::
  "event list \<Rightarrow> thrown \<Rightarrow> live_chat \<Rightarrow> live_chat \<times> event list \<times> start_result" where
  "startSession_catch evs err s =
     (let (s', ev) = stopSession s
      in (s', evs @ [ConsoleError ''Failed to start live session:'',
                      SetError (Some (''Failed to start voice chat: '' @ error_message err))] @ ev,
          Returned (Some False)))"

definition startSession_begin ::
  "start_env \<Rightarrow> live_chat \<Rightarrow> live_chat \<times> event list \<times> start_result" where
  "startSession_begin env s =
     (if sessionPromise s \<noteq> None
      then (s, [ConsoleWarn ''Session already active.''], Returned None)
      else
        (let s0 = s \<lparr> currentInputTranscription := [], currentOutputTranscription := [] \<rparr>;
             ev0 = [SetError None, TranscriptionUpdate [] []]
         in case new_input_context env of
              Inl err \<Rightarrow> startSession_catch ev0 err s0
            | Inr ic \<Rightarrow>
                (let s1 = s0 \<lparr> inputAudioContext := Some ic \<rparr>;
                     ev1 = ev0 @ [ContextCreated ic 16000]
                 in case new_output_context env of
                      Inl err \<Rightarrow> startSession_catch ev1 err s1
                    | Inr oc \<Rightarrow>
                        (s1 \<lparr> outputAudioContext := Some oc, outputNode := Some (new_gain env) \<rparr>,
                         ev1 @ [ContextCreated oc 24000, NodeConnected (new_gain env)],
                         AwaitingMicrophone))))"

definition startSession_resume ::
  "string \<Rightarrow> start_env \<Rightarrow> live_chat \<Rightarrow> live_chat \<times> event list \<times> start_result" where
  "startSession_resume systemInstruction env s =
     (case get_user_media env of
        Inl err \<Rightarrow> startSession_catch [] err s
      | Inr ms \<Rightarrow>
          (let s1 = s \<lparr> mediaStream := Some ms \<rparr>
           in case new_client env of
                Inl err \<Rightarrow> startSession_catch [MicrophoneOpened ms] err s1
              | Inr _ \<Rightarrow>
                  (s1 \<lparr> sessionPromise := Some (live_connect env) \<rparr>,
                   [MicrophoneOpened ms,
                    ChannelRequested (live_connect env)
                      (if systemInstruction = [] then ''You are a friendly and helpful AI assistant.''
                       else systemInstruction)],
                   Returned (Some True))))"

text \<open>A call of \<open>startSession\<close> that nothing interleaves with.\<close>

definition startSession ::
  "string \<Rightarrow> start_env \<Rightarrow> live_chat \<Rightarrow> live_chat \<times> event list \<times> start_result" where
  "startSession systemInstruction env s =
     (case startSession_begin env s of
        (s1, ev1, AwaitingMicrophone) \<Rightarrow>
          (case startSession_resume systemInstruction env s1 of
             (s2, ev2, r) \<Rightarrow> (s2, ev1 @ ev2, r))
      | (s1, ev1, Returned r) \<Rightarrow> (s1, ev1, Returned r))"

subsection \<open>The channel callbacks\<close>

text \<open>\<open>onopen\<close>: the two nodes it creates are handles given by the environment.\<close>

definition onopen :: "handle \<Rightarrow> handle \<Rightarrow> live_chat \<Rightarrow> live_chat \<times> event list" where
  "onopen src proc s =
     (if inputAudioContext s \<noteq> None \<and> mediaStream s \<noteq> None
      then (s \<lparr> mediaStreamSource := Some src, scriptProcessor := Some proc \<rparr>,
            [ConsoleDebug ''Live session opened.'', NodeConnected src, NodeConnected proc])
      else (s, [ConsoleDebug ''Live session opened.'']))"

text \<open>\<open>onaudioprocess\<close>: \<open>createBlob\<close>, then \<open>this.sessionPromise?.then(...)\<close>.\<close>

definition onaudioprocess :: "rat list \<Rightarrow> live_chat \<Rightarrow> thrown + event list" where
  "onaudioprocess inputData s =
     (case createBlob inputData of
        Inl e \<Rightarrow> Inl e
      | Inr pcmBlob \<Rightarrow>
          Inr (case sessionPromise s of
                 Some p \<Rightarrow> [RealtimeInputSent p pcmBlob] | None \<Rightarrow> []))"

text \<open>
  A server message, as far as \<open>onmessage\<close> reads it: \<open>audio\<close> is the value of
  \<open>message.serverContent?.modelTurn?.parts[0]?.inlineData?.data\<close>, the two
  transcriptions are the \<open>text\<close> of the objects when they are present.
\<close>

record server_message =
  audio :: "string option"
  outputTranscription :: "string option"
  inputTranscription :: "string option"
  turnComplete :: bool
  interrupted :: bool

definition set_add :: "handle list \<Rightarrow> handle \<Rightarrow> handle list" where
  "set_add xs x = (if x \<in> set xs then xs else xs @ [x])"

definition set_delete :: "handle list \<Rightarrow> handle \<Rightarrow> handle list" where
  "set_delete xs x = removeAll x xs"

text \<open>
  The audio part of \<open>onmessage\<close>. \<open>now\<close> is \<open>outputAudioContext.currentTime\<close> when the
  message is handled, \<open>src\<close> the buffer source that \<open>createBufferSource\<close> returns. The
  handler awaits \<open>decodeAudioData\<close>, which itself awaits nothing: it resumes before any
  other callback runs.
\<close>

definition audio_failed :: "live_chat \<Rightarrow> live_chat \<times> event list" where
  "audio_failed s =
     (s, [ConsoleError ''Error decoding or playing audio:'',
          SetError (Some ''Failed to play audio response.'')])"

definition handle_audio ::
  "time \<Rightarrow> handle \<Rightarrow> string option \<Rightarrow> live_chat \<Rightarrow> live_chat \<times> event list" where
  "handle_audio now src a s =
     (case a of
        None \<Rightarrow> (s, [])
      | Some base64EncodedAudioString \<Rightarrow>
          if base64EncodedAudioString \<noteq> [] \<and> outputAudioContext s \<noteq> None \<and> outputNode s \<noteq> None
          then
            (let s1 = s \<lparr> nextStartTime := max (nextStartTime s) now \<rparr>
             in case decode base64EncodedAudioString of
                  Inl e \<Rightarrow> audio_failed s1
                | Inr bytes \<Rightarrow>
                    (case decodeAudioData bytes 24000 1 of
                       Inl e \<Rightarrow> audio_failed s1
                     | Inr audioBuffer \<Rightarrow>
                         (s1 \<lparr> nextStartTime := nextStartTime s1 + duration audioBuffer,
                               sources := set_add (sources s1) src \<rparr>,
                          [SourceStart src audioBuffer (nextStartTime s1)])))
          else (s, []))"

text \<open>The listener of \<open>ended\<close> that the handler registers on each source.\<close>

definition source_ended :: "handle \<Rightarrow> live_chat \<Rightarrow> live_chat" where
  "source_ended src s = s \<lparr> sources := set_delete (sources s) src \<rparr>"

definition handle_transcription :: "server_message \<Rightarrow> live_chat \<Rightarrow> live_chat \<times> event list" where
  "handle_transcription m s =
     (let s1 = (case outputTranscription m of
                  Some t \<Rightarrow> s \<lparr> currentOutputTranscription := currentOutputTranscription s @ t \<rparr>
                | None \<Rightarrow> s);
          s2 = (case inputTranscription m of
                  Some t \<Rightarrow> s1 \<lparr> currentInputTranscription := currentInputTranscription s1 @ t \<rparr>
                | None \<Rightarrow> s1);
          update = TranscriptionUpdate (currentInputTranscription s2) (currentOutputTranscription s2)
      in if turnComplete m
         then (s2 \<lparr> currentInputTranscription := [], currentOutputTranscription := [] \<rparr>, [update])
         else (s2, [update]))"

text \<open>
  The loop over \<open>this.sources.values()\<close> that stops each source and deletes it from the
  set it iterates over.
\<close>

fun stop_and_delete :: "handle list \<Rightarrow> handle list \<Rightarrow> handle list \<times> event list" where
  "stop_and_delete [] cur = (cur, [])"
| "stop_and_delete (source # rest) cur =
     (let (cur', ev) = stop_and_delete rest (set_delete cur source)
      in (cur', SourceStop source # ev))"

definition handle_interrupted :: "server_message \<Rightarrow> live_chat \<Rightarrow> live_chat \<times> event list" where
  "handle_interrupted m s =
     (if interrupted m
      then (let (cur, ev) = stop_and_delete (sources s) (sources s)
            in (s \<lparr> sources := cur, nextStartTime := 0 \<rparr>, ev))
      else (s, []))"

definition onmessage ::
  "time \<Rightarrow> handle \<Rightarrow> server_message \<Rightarrow> live_chat \<Rightarrow> live_chat \<times> event list" where
  "onmessage now src m s =
     (let (s1, ev1) = handle_audio now src (audio m) s;
          (s2, ev2) = handle_transcription m s1;
          (s3, ev3) = handle_interrupted m s2
      in (s3, ev1 @ ev2 @ ev3))"

definition onerror :: "live_chat \<Rightarrow> live_chat \<times> event list" where
  "onerror s =
     (let (s', ev) = stopSession s
      in (s', [ConsoleError ''Live session error:'',
               SetError (Some ''Voice chat encountered an error. Please try again.'')] @ ev))"

definition onclose :: "live_chat \<Rightarrow> live_chat \<times> event list" where
  "onclose s =
     (let (s', ev) = stopSessionCleanup s
      in (s', ConsoleDebug ''Live session closed:'' # ev))"

subsection \<open>Runs of the service\<close>

text \<open>
  Everything that can happen to the object: a call of one of its two public methods (the
  first in its two halves), one of the callbacks it has registered.
\<close>

datatype op =
    StartBegin start_env
  | StartResume string start_env
  | Stop
  | Open handle handle
  | Message time handle server_message
  | ChannelError
  | ChannelClose
  | SourceEnded handle

fun step :: "op \<Rightarrow> live_chat \<Rightarrow> live_chat \<times> event list" where
  "step (StartBegin env) s = (case startSession_begin env s of (s', ev, r) \<Rightarrow> (s', ev))"
| "step (StartResume sys env) s = (case startSession_resume sys env s of (s', ev, r) \<Rightarrow> (s', ev))"
| "step Stop s = stopSession s"
| "step (Open src proc) s = onopen src proc s"
| "step (Message now src m) s = onmessage now src m s"
| "step ChannelError s = onerror s"
| "step ChannelClose s = onclose s"
| "step (SourceEnded src) s = (source_ended src s, [])"

fun run :: "op list \<Rightarrow> live_chat \<Rightarrow> live_chat \<times> event list" where
  "run [] s = (s, [])"
| "run (x # xs) s =
     (let (s1, ev1) = step x s; (s2, ev2) = run xs s1 in (s2, ev1 @ ev2))"

subsection \<open>What the properties are stated with\<close>

text \<open>The playback units of a trace: start time and duration of each started source.\<close>

fun scheduled :: "event list \<Rightarrow> (time \<times> time) list" where
  "scheduled [] = []"
| "scheduled (SourceStart src b t # ev) = (t, duration b) # scheduled ev"
| "scheduled (e # ev) = scheduled ev"

text \<open>Each unit starts no earlier than the one before it ends, the first no earlier than \<open>lo\<close>.\<close>

fun no_overlap_from :: "time \<Rightarrow> (time \<times> time) list \<Rightarrow> bool" where
  "no_overlap_from lo [] = True"
| "no_overlap_from lo ((t, d) # r) = (lo \<le> t \<and> no_overlap_from (t + d) r)"

text \<open>Each unit starts exactly when the one before it ends, the first at \<open>lo\<close>.\<close>

fun gapless_from :: "time \<Rightarrow> (time \<times> time) list \<Rightarrow> bool" where
  "gapless_from lo [] = True"
| "gapless_from lo ((t, d) # r) = (t = lo \<and> gapless_from (t + d) r)"

text \<open>
  What can happen between two packets without interrupting playback: a message without
  the \<open>interrupted\<close> flag, the natural end of a unit, the opening of the channel. A start,
  a stop, a channel error or close, and a message with the flag are excluded.
\<close>

fun no_interruption :: "op \<Rightarrow> bool" where
  "no_interruption (Message now src m) = (\<not> interrupted m)"
| "no_interruption (SourceEnded src) = True"
| "no_interruption (Open src proc) = True"
| "no_interruption x = False"

definition uninterrupted :: "op list \<Rightarrow> bool" where
  "uninterrupted ops = list_all no_interruption ops"

text \<open>The message carries audio that the handler goes on to decode.\<close>

definition enters_audio :: "server_message \<Rightarrow> live_chat \<Rightarrow> bool" where
  "enters_audio m s =
     (case audio m of
        None \<Rightarrow> False
      | Some b \<Rightarrow> b \<noteq> [] \<and> outputAudioContext s \<noteq> None \<and> outputNode s \<noteq> None)"

text \<open>
  Every packet of the run is handled while the output clock has not passed the end of
  the audio queued so far.
\<close>

fun timely :: "op list \<Rightarrow> live_chat \<Rightarrow> bool" where
  "timely [] s = True"
| "timely (Message now src m # r) s =
     ((enters_audio m s \<longrightarrow> now \<le> nextStartTime s) \<and>
      timely r (fst (onmessage now src m s)))"
| "timely (x # r) s = timely r (fst (step x s))"

text \<open>
  The events by which a teardown gives back what the state holds: the channel is asked
  to close, the capture nodes are disconnected, the tracks of the stream are stopped,
  both contexts are closed, every tracked unit is stopped.
\<close>

definition releases :: "live_chat \<Rightarrow> event list \<Rightarrow> bool" where
  "releases s ev =
     ((case sessionPromise s of Some p \<Rightarrow> ChannelCloseRequested p \<in> set ev | None \<Rightarrow> True) \<and>
      (case scriptProcessor s of
         Some p \<Rightarrow> AudioProcessCleared p \<in> set ev \<and> NodeDisconnected p \<in> set ev
       | None \<Rightarrow> True) \<and>
      (case mediaStreamSource s of Some n \<Rightarrow> NodeDisconnected n \<in> set ev | None \<Rightarrow> True) \<and>
      (case mediaStream s of Some m \<Rightarrow> TracksStopped m \<in> set ev | None \<Rightarrow> True) \<and>
      (case inputAudioContext s of Some c \<Rightarrow> ContextClosed c \<in> set ev | None \<Rightarrow> True) \<and>
      (case outputAudioContext s of
         Some c \<Rightarrow> ContextClosed c \<in> set ev \<and> list_all (\<lambda>src. SourceStop src \<in> set ev) (sources s)
       | None \<Rightarrow> True) \<and>
      (case outputNode s of Some n \<Rightarrow> NodeDisconnected n \<in> set ev | None \<Rightarrow> True))"

text \<open>The event that gives back what an event has acquired.\<close>

fun release_of :: "event \<Rightarrow> event option" where
  "release_of (ContextCreated c rate) = Some (ContextClosed c)"
| "release_of (NodeConnected n) = Some (NodeDisconnected n)"
| "release_of (MicrophoneOpened m) = Some (TracksStopped m)"
| "release_of (ChannelRequested p sys) = Some (ChannelCloseRequested p)"
| "release_of e = None"

definition leak_free :: "event list \<Rightarrow> bool" where
  "leak_free ev =
     list_all (\<lambda>e. case release_of e of None \<Rightarrow> True | Some r \<Rightarrow> r \<in> set ev) ev"

text \<open>No playback unit is tracked once the output device is released.\<close>

definition no_orphan :: "live_chat \<Rightarrow> bool" where
  "no_orphan s = (outputAudioContext s = None \<longrightarrow> sources s = [])"

text \<open>Every handle of the object is null and both transcript buffers are empty.\<close>

definition closed :: "live_chat \<Rightarrow> bool" where
  "closed s =
     (sessionPromise s = None \<and> inputAudioContext s = None \<and> outputAudioContext s = None \<and>
      scriptProcessor s = None \<and> mediaStreamSource s = None \<and> mediaStream s = None \<and>
      outputNode s = None \<and> currentInputTranscription s = [] \<and>
      currentOutputTranscription s = [])"

text \<open>
  The messages behind the operations the spec names: \<open>appendInput(text)\<close>,
  \<open>appendOutput(text)\<close>, \<open>markTurnComplete()\<close>, \<open>interrupt()\<close>, \<open>schedule(packet)\<close>.
\<close>

definition no_content :: server_message where
  "no_content = \<lparr> audio = None, outputTranscription = None, inputTranscription = None,
       turnComplete = False, interrupted = False \<rparr>"

definition appendInput :: "string \<Rightarrow> server_message" where
  "appendInput t = no_content \<lparr> inputTranscription := Some t \<rparr>"

definition appendOutput :: "string \<Rightarrow> server_message" where
  "appendOutput t = no_content \<lparr> outputTranscription := Some t \<rparr>"

definition markTurnComplete :: server_message where
  "markTurnComplete = no_content \<lparr> turnComplete := True \<rparr>"

definition interrupt :: server_message where
  "interrupt = no_content \<lparr> interrupted := True \<rparr>"

definition schedule :: "string \<Rightarrow> server_message" where
  "schedule packet = no_content \<lparr> audio := Some packet \<rparr>"

text \<open>The three ways a session is torn down: \<open>stop()\<close>, a channel error, a channel close.\<close>

definition teardown :: "op \<Rightarrow> bool" where
  "teardown x = (x = Stop \<or> x = ChannelError \<or> x = ChannelClose)"

text \<open>The handles a live session holds; a teardown nulls them.\<close>

definition session_handles :: "live_chat \<Rightarrow> handle option list" where
  "session_handles s =
     [sessionPromise s, inputAudioContext s, outputAudioContext s, scriptProcessor s,
      mediaStreamSource s, mediaStream s, outputNode s]"

text \<open>What the \<open>try\<close> block of \<open>startSession\<close> throws, if it throws: the first failing call.\<close>

definition first_fault :: "start_env \<Rightarrow> thrown option" where
  "first_fault env =
     (case new_input_context env of
        Inl err \<Rightarrow> Some err
      | Inr _ \<Rightarrow>
          (case new_output_context env of
             Inl err \<Rightarrow> Some err
           | Inr _ \<Rightarrow>
               (case get_user_media env of
                  Inl err \<Rightarrow> Some err
                | Inr _ \<Rightarrow>
                    (case new_client env of Inl err \<Rightarrow> Some err | Inr _ \<Rightarrow> None))))"

subsection \<open>Sample inputs\<close>

text \<open>
  An environment in which nothing fails, one in which the microphone is refused, the
  state a session is in while the first awaits the microphone, and the state once its
  channel is open.
\<close>

definition env0 :: start_env where
  "env0 = \<lparr> new_input_context = Inr 1, new_output_context = Inr 2, new_gain = 3,
            get_user_media = Inr 4, new_client = Inr (), live_connect = 5 \<rparr>"

definition env1 :: start_env where
  "env1 = \<lparr> new_input_context = Inr 11, new_output_context = Inr 12, new_gain = 13,
            get_user_media = Inr 14, new_client = Inr (), live_connect = 15 \<rparr>"

definition env_denied :: start_env where
  "env_denied = env0 \<lparr> get_user_media := Inl (Error ''Permission denied'') \<rparr>"

definition connecting0 :: live_chat where
  "connecting0 = initial \<lparr> inputAudioContext := Some 1, outputAudioContext := Some 2,
       outputNode := Some 3 \<rparr>"

definition active0 :: live_chat where
  "active0 = \<lparr> sessionPromise = Some 5, inputAudioContext = Some 1, outputAudioContext = Some 2,
       scriptProcessor = Some 7, mediaStreamSource = Some 6, mediaStream = Some 4,
       outputNode = Some 3, sources = [], nextStartTime = 0,
       currentInputTranscription = [], currentOutputTranscription = [] \<rparr>"

text \<open>One frame of silence: the buffer that the two-byte packet \<open>AAA=\<close> decodes to.\<close>

definition one_frame :: audio_buffer where
  "one_frame = \<lparr> numberOfChannels = 1, sampleRate = 24000, channels = [[0]] \<rparr>"

text \<open>Two packets of one frame each, the second arriving after the first unit has ended.\<close>

definition late_packets :: "op list" where
  "late_packets = [Message 0 8 (schedule ''AAA=''), Message 5 9 (schedule ''AAA='')]"

text \<open>
  A response of three packets of one frame each, arriving together at clock \<open>10\<close> on a
  session whose queue is empty; the first unit ends before the third packet is handled.
\<close>

definition first_packet :: op where
  "first_packet = Message 10 8 (schedule ''AAA='')"

definition later_packets :: "op list" where
  "later_packets =
     [Message 10 9 (schedule ''AAA=''), SourceEnded 8, Message 10 10 (schedule ''AAA='')]"

text \<open>
  Two calls of \<open>startSession\<close>, the second made while the first awaits the microphone;
  both resume, and the session is stopped.
\<close>

definition double_start :: "op list" where
  "double_start =
     [StartBegin env0, StartBegin env1, StartResume [] env0, StartResume [] env1, Stop]"

text \<open>A session is started, its channel opens, one packet of audio arrives.\<close>

definition session_with_audio :: "op list" where
  "session_with_audio =
     [StartBegin env0, StartResume [] env0, Open 6 7, Message 0 8 (schedule ''AAA='')]"

text \<open>A session with two units tracked and audio queued up to \<open>9/4\<close>.\<close>

definition playing0 :: live_chat where
  "playing0 = active0 \<lparr> sources := [8, 9], nextStartTime := 9 / 4 \<rparr>"

text \<open>The spec's sample mapping, in its own words: \<open>round(clamp(s, -1, 1) * 32767)\<close>.\<close>

definition spec_encode_sample :: "rat \<Rightarrow> int" where
  "spec_encode_sample s = round (max (-1) (min 1 s) * 32767)"

section \<open>Base64: \<open>decode\<close> undoes \<open>encode\<close>\<close>

lemma b64_index_char_all: "\<forall>n \<in> set [0..<64]. b64_index (b64_char n) = Some n"
  by code_simp

lemma b64_index_char: "n < 64 \<Longrightarrow> b64_index (b64_char n) = Some n"
  using b64_index_char_all by simp

lemma b64_index_pad: "b64_index (CHR ''='') = None"
  by code_simp

lemma b64_index_whitespace: "ascii_whitespace c \<Longrightarrow> b64_index c = None"
  unfolding ascii_whitespace_def by (auto; code_simp)

lemma b64_sextets_bound:
  "\<forall>x \<in> set xs. x < 256 \<Longrightarrow> \<forall>y \<in> set (b64_sextets xs). y < 64"
  by (induction xs rule: b64_sextets.induct) (auto simp: less_mult_imp_div_less)

lemma b64_octets_sextets:
  "\<forall>x \<in> set xs. x < 256 \<Longrightarrow> b64_octets (b64_sextets xs) = xs"
  by (induction xs rule: b64_sextets.induct) auto

text \<open>The encoded text: its shape, by the length of the input modulo three.\<close>

lemma b64_sextets_length: "length (b64_sextets xs) = (4 * length xs + 2) div 3"
  by (induction xs rule: b64_sextets.induct) simp_all

lemma b64_sextets_Nil: "b64_sextets xs = [] \<longleftrightarrow> xs = []"
  by (cases xs rule: b64_sextets.cases) auto

lemma strip_padding_none:
  "length ys mod 4 = 0 \<Longrightarrow> ys = [] \<or> last ys \<noteq> CHR ''='' \<Longrightarrow> strip_padding ys = ys"
  by (cases ys rule: rev_cases) (auto simp: strip_padding_def split: list.splits)

lemma strip_padding_one:
  "length ys mod 4 = 3 \<Longrightarrow> last ys \<noteq> CHR ''='' \<Longrightarrow> strip_padding (ys @ [CHR ''='']) = ys"
proof -
  assume l: "length ys mod 4 = 3" and n: "last ys \<noteq> CHR ''=''"
  from l have "ys \<noteq> []" by auto
  then obtain zs z where ys: "ys = zs @ [z]" by (cases ys rule: rev_cases) auto
  from l have "Suc (length ys) mod 4 = 0" by presburger
  with ys n show ?thesis by (simp add: strip_padding_def)
qed

lemma strip_padding_two:
  "length ys mod 4 = 2 \<Longrightarrow> strip_padding (ys @ [CHR ''='', CHR ''='']) = ys"
proof -
  assume l: "length ys mod 4 = 2"
  then have "Suc (Suc (length ys)) mod 4 = 0" by presburger
  then show ?thesis by (simp add: strip_padding_def)
qed

lemma b64_char_not_pad: "n < 64 \<Longrightarrow> b64_char n \<noteq> CHR ''=''"
  using b64_index_char [of n] b64_index_pad by auto

lemma b64_char_not_whitespace: "n < 64 \<Longrightarrow> \<not> ascii_whitespace (b64_char n)"
  using b64_index_char [of n] b64_index_whitespace [of "b64_char n"] by auto

lemma pad_not_whitespace: "\<not> ascii_whitespace (CHR ''='')"
  by (simp add: ascii_whitespace_def)

lemma replicate_two: "replicate 2 c = [c, c]"
  by (simp add: numeral_2_eq_2)

lemma strip_padding_btoa:
  assumes "\<forall>x \<in> set xs. x < 256"
  shows "strip_padding (map b64_char (b64_sextets xs) @ b64_padding xs) = map b64_char (b64_sextets xs)"
proof -
  let ?t = "map b64_char (b64_sextets xs)"
  have bound: "\<forall>y \<in> set (b64_sextets xs). y < 64"
    using assms by (rule b64_sextets_bound)
  have lastt: "b64_sextets xs \<noteq> [] \<Longrightarrow> last ?t \<noteq> CHR ''=''"
    using bound by (simp add: last_map b64_char_not_pad)
  have len: "length ?t = (4 * length xs + 2) div 3"
    by (simp add: b64_sextets_length)
  consider "length xs mod 3 = 0" | "length xs mod 3 = 1" | "length xs mod 3 = 2"
    by linarith
  then show ?thesis
  proof cases
    case 1
    then have "(3 - length xs mod 3) mod 3 = 0" by simp
    then have "b64_padding xs = []" by (simp add: b64_padding_def)
    moreover have "length ?t mod 4 = 0" using len 1 by presburger
    moreover have "?t = [] \<or> last ?t \<noteq> CHR ''=''" using lastt by auto
    ultimately show ?thesis by (simp add: strip_padding_none)
  next
    case 2
    then have "(3 - length xs mod 3) mod 3 = 2" by simp
    then have "b64_padding xs = [CHR ''='', CHR ''='']"
      by (simp add: b64_padding_def replicate_two)
    moreover have "length ?t mod 4 = 2" using len 2 by presburger
    ultimately show ?thesis by (simp add: strip_padding_two)
  next
    case 3
    then have "(3 - length xs mod 3) mod 3 = 1" by simp
    then have "b64_padding xs = [CHR ''='']"
      by (simp add: b64_padding_def)
    moreover have "length ?t mod 4 = 3" using len 3 by presburger
    moreover have "b64_sextets xs \<noteq> []" using 3 by (auto simp: b64_sextets_Nil)
    ultimately show ?thesis using lastt by (simp add: strip_padding_one)
  qed
qed

lemma atob_btoa:
  assumes "\<forall>x \<in> set xs. x < 256"
  shows "btoa xs = Inr (map b64_char (b64_sextets xs) @ b64_padding xs)"
    and "atob (map b64_char (b64_sextets xs) @ b64_padding xs) = Inr xs"
proof -
  let ?t = "map b64_char (b64_sextets xs)"
  show "btoa xs = Inr (?t @ b64_padding xs)"
    using assms by (auto simp: btoa_def list_ex_iff)
  have bound: "\<forall>y \<in> set (b64_sextets xs). y < 64"
    using assms by (rule b64_sextets_bound)
  have nows: "filter (\<lambda>c. \<not> ascii_whitespace c) (?t @ b64_padding xs) = ?t @ b64_padding xs"
    using bound pad_not_whitespace by (auto simp: filter_id_conv b64_char_not_whitespace b64_padding_def)
  have idx: "map (\<lambda>c. the (b64_index c)) ?t = b64_sextets xs"
    using bound by (simp add: map_idI b64_index_char comp_def)
  have noforeign: "\<not> list_ex (\<lambda>c. b64_index c = None) ?t"
    using bound by (auto simp: list_ex_iff b64_index_char)
  have len1: "length ?t mod 4 \<noteq> 1"
    unfolding length_map b64_sextets_length by presburger
  show "atob (?t @ b64_padding xs) = Inr xs"
    unfolding atob_def nows strip_padding_btoa [OF assms] Let_def
    using noforeign len1 idx b64_octets_sextets [OF assms] by simp
qed

text \<open>
  C10. For every byte array \<open>b\<close>, \<open>encode b\<close> returns a string (it does not throw), and
  \<open>decode\<close> of that string returns a byte array equal to \<open>b\<close>.
\<close>

theorem decode_encode_roundtrip: "\<exists>t. encode b = Inr t \<and> decode t = Inr b"
proof -
  let ?xs = "map unat b"
  have small: "\<forall>x \<in> set ?xs. x < 256"
  proof
    fix x assume "x \<in> set ?xs"
    then obtain w :: byte where "x = unat w" by auto
    moreover have "unat w < 2 ^ LENGTH(8)" by (rule unsigned_less)
    ultimately show "x < 256" by simp
  qed
  have bk: "map (\<lambda>c. word_of_nat c) ?xs = b"
    by (simp add: map_idI comp_def)
  show ?thesis
    using atob_btoa [OF small] bk by (simp add: encode_def decode_def)
qed

theorem decode_encode_roundtrip_witness:
  "encode [1, 2, 3, 4] = Inr ''AQIDBA=='' \<and> decode ''AQIDBA=='' = Inr [1, 2, 3, 4]"
proof -
  have e: "encode [1, 2, 3, 4] = Inr ''AQIDBA==''"
    by code_simp
  obtain t where "encode [1, 2, 3, 4] = Inr t" and "decode t = Inr [1, 2, 3, 4]"
    using decode_encode_roundtrip [of "[1, 2, 3, 4]"] by blast
  with e show ?thesis by simp
qed

section \<open>Teardown\<close>

lemma stop_and_delete_eq:
  "stop_and_delete xs cur = (filter (\<lambda>x. x \<notin> set xs) cur, map SourceStop xs)"
proof (induction xs arbitrary: cur)
  case Nil
  then show ?case by simp
next
  case (Cons x xs)
  have "filter (\<lambda>y. y \<notin> set xs) (removeAll x cur) = filter (\<lambda>y. y \<noteq> x \<and> y \<notin> set xs) cur"
    by (induction cur) auto
  then show ?case using Cons by (simp add: set_delete_def)
qed

lemma stop_and_delete_all: "stop_and_delete xs xs = ([], map SourceStop xs)"
  by (simp add: stop_and_delete_eq)

lemma stopSessionCleanup_state:
  "fst (stopSessionCleanup s) =
     s \<lparr> scriptProcessor := None, mediaStreamSource := None, mediaStream := None,
         inputAudioContext := None,
         sources := (case outputAudioContext s of Some c \<Rightarrow> [] | None \<Rightarrow> sources s),
         nextStartTime := (case outputAudioContext s of Some c \<Rightarrow> 0 | None \<Rightarrow> nextStartTime s),
         outputAudioContext := None, outputNode := None,
         currentInputTranscription := [], currentOutputTranscription := [] \<rparr>"
  by (simp add: stopSessionCleanup_def Let_def)

lemma stopSession_state:
  "fst (stopSession s) = fst (stopSessionCleanup s) \<lparr> sessionPromise := None \<rparr>"
  by (cases "sessionPromise s"; cases "outputAudioContext s")
     (simp_all add: stopSession_def stopSessionCleanup_def Let_def)

lemma stopSession_closed: "closed (fst (stopSession s))"
  by (simp add: stopSession_state stopSessionCleanup_state closed_def)

lemma stopSessionCleanup_closed_events:
  "closed s \<Longrightarrow> snd (stopSessionCleanup s) =
     [TranscriptionUpdate [] [], ConsoleDebug ''Live session cleanup complete.'']"
  by (auto simp: closed_def stopSessionCleanup_def Let_def)

lemma stopSession_closed_events:
  "closed s \<Longrightarrow> snd (stopSession s) =
     [TranscriptionUpdate [] [], ConsoleDebug ''Live session cleanup complete.'']"
  using stopSessionCleanup_closed_events [of s] by (auto simp: stopSession_def closed_def)

lemma stopSession_closed_state: "closed s \<Longrightarrow> fst (stopSession s) = s"
  by (auto simp: stopSession_state stopSessionCleanup_state closed_def)

lemma stopSessionCleanup_releases:
  "sessionPromise s = None \<Longrightarrow> releases s (snd (stopSessionCleanup s))"
  by (auto simp: releases_def stopSessionCleanup_def Let_def list_all_iff split: option.splits)

lemma stopSession_releases: "releases s (snd (stopSession s))"
proof (cases "sessionPromise s")
  case None
  then show ?thesis using stopSessionCleanup_releases [of s] by (simp add: stopSession_def)
next
  case (Some p)
  have "releases (s \<lparr> sessionPromise := None \<rparr>)
          (snd (stopSessionCleanup (s \<lparr> sessionPromise := None \<rparr>)))"
    by (rule stopSessionCleanup_releases) simp
  then show ?thesis using Some
    by (auto simp: releases_def stopSession_def split_beta list_all_iff split: option.splits)
qed

lemma stopSessionCleanup_final_update:
  "TranscriptionUpdate (currentInputTranscription s) (currentOutputTranscription s)
     \<in> set (snd (stopSessionCleanup s))"
  by (simp add: stopSessionCleanup_def Let_def)

lemma stopSession_final_update:
  "TranscriptionUpdate (currentInputTranscription s) (currentOutputTranscription s)
     \<in> set (snd (stopSession s))"
  using stopSessionCleanup_final_update [of s]
    stopSessionCleanup_final_update [of "s \<lparr> sessionPromise := None \<rparr>"]
  by (cases "sessionPromise s") (simp_all add: stopSession_def split_beta)

lemma stopSession_sources: "no_orphan s \<Longrightarrow> sources (fst (stopSession s)) = []"
  by (auto simp: stopSession_state stopSessionCleanup_state no_orphan_def split: option.splits)

lemma stopSession_playing0:
  "stopSession playing0 =
     (initial,
      [ChannelCloseRequested 5, AudioProcessCleared 7, NodeDisconnected 7, NodeDisconnected 6,
       TracksStopped 4, ContextClosed 1, SourceStop 8, SourceStop 9, ContextClosed 2,
       NodeDisconnected 3, TranscriptionUpdate [] [],
       ConsoleDebug ''Live session cleanup complete.''])"
  by (simp add: stopSession_def stopSessionCleanup_def playing0_def active0_def initial_def
      Let_def)

lemma stopSession_initial:
  "stopSession initial =
     (initial, [TranscriptionUpdate [] [], ConsoleDebug ''Live session cleanup complete.''])"
  by (simp add: stopSession_def stopSessionCleanup_def initial_def Let_def)

text \<open>
  C6 (as amended). \<open>stopSession\<close> is a total function of the state: the method has no
  \<open>throw\<close>, and the platform calls it makes do not throw on the objects it holds (every
  tracked source has been started). From any state, the first call gives back
  everything the state holds (the channel is asked to close, the capture nodes are
  disconnected, the tracks are stopped, both contexts are closed, every tracked unit is
  stopped), hands the observer the final transcript and leaves the session closed; a
  second call right after it leaves that state as it is and touches no resource. The
  second call is not without effect: it calls the transcript observer once more, with
  two empty strings, and writes its debug line.
\<close>

theorem stopSession_releases_once:
  "(let (s1, ev1) = stopSession s; (s2, ev2) = stopSession s1
    in releases s ev1 \<and>
       TranscriptionUpdate (currentInputTranscription s) (currentOutputTranscription s)
         \<in> set ev1 \<and>
       closed s1 \<and> (no_orphan s \<longrightarrow> sources s1 = []) \<and>
       s2 = s1 \<and>
       ev2 = [TranscriptionUpdate [] [], ConsoleDebug ''Live session cleanup complete.''])"
proof -
  obtain s1 ev1 where 1: "stopSession s = (s1, ev1)" by (cases "stopSession s")
  obtain s2 ev2 where 2: "stopSession s1 = (s2, ev2)" by (cases "stopSession s1")
  have c: "closed s1" using stopSession_closed [of s] 1 by simp
  have r: "releases s ev1" using stopSession_releases [of s] 1 by simp
  have u: "TranscriptionUpdate (currentInputTranscription s) (currentOutputTranscription s)
         \<in> set ev1"
    using stopSession_final_update [of s] 1 by simp
  have n: "no_orphan s \<longrightarrow> sources s1 = []" using stopSession_sources [of s] 1 by simp
  have e: "s2 = s1" using stopSession_closed_state [OF c] 2 by simp
  have "ev2 = [TranscriptionUpdate [] [], ConsoleDebug ''Live session cleanup complete.'']"
    using stopSession_closed_events [OF c] 2 by simp
  then show ?thesis using 1 2 c r u n e by simp
qed

theorem stopSession_releases_once_witness:
  "no_orphan playing0 \<and> sources playing0 = [8, 9] \<and>
   releases playing0 (snd (stopSession playing0)) \<and>
   SourceStop 8 \<in> set (snd (stopSession playing0)) \<and>
   ContextClosed 2 \<in> set (snd (stopSession playing0)) \<and>
   fst (stopSession playing0) = initial \<and>
   sources (fst (stopSession playing0)) = [] \<and>
   fst (stopSession (fst (stopSession playing0))) = fst (stopSession playing0)"
proof -
  have n: "no_orphan playing0" "sources playing0 = [8, 9]"
    by (simp_all add: no_orphan_def playing0_def active0_def)
  show ?thesis
    using stopSession_releases_once [of playing0] n
    by (simp add: stopSession_playing0 stopSession_initial)
qed

text \<open>
  The claim as stated (a stop on a closed session is a no-op) fails: on the initial
  state, which is closed, \<open>stopSession\<close> calls the transcript observer.
\<close>

theorem second_stop_counterexample:
  "closed initial \<and> sources initial = [] \<and>
   snd (stopSession initial) =
     [TranscriptionUpdate [] [], ConsoleDebug ''Live session cleanup complete.''] \<and>
   snd (stopSession initial) \<noteq> []"
  by (simp add: stopSession_initial) (simp add: closed_def initial_def)

subsection \<open>What each part of the message handler leaves alone\<close>

lemma handle_audio_frame:
  "outputAudioContext (fst (handle_audio now src a s)) = outputAudioContext s"
  "outputAudioContext s = None \<Longrightarrow> sources (fst (handle_audio now src a s)) = sources s"
  by (auto simp: handle_audio_def audio_failed_def Let_def split: option.splits sum.splits)

lemma handle_transcription_frame:
  "outputAudioContext (fst (handle_transcription m s)) = outputAudioContext s"
  "sources (fst (handle_transcription m s)) = sources s"
  "nextStartTime (fst (handle_transcription m s)) = nextStartTime s"
  by (auto simp: handle_transcription_def Let_def split: option.splits)

lemma handle_interrupted_frame:
  "outputAudioContext (fst (handle_interrupted m s)) = outputAudioContext s"
  "sources (fst (handle_interrupted m s)) = (if interrupted m then [] else sources s)"
  by (auto simp: handle_interrupted_def stop_and_delete_all)

lemma onmessage_fst:
  "fst (onmessage now src m s) =
     fst (handle_interrupted m (fst (handle_transcription m (fst (handle_audio now src (audio m) s)))))"
  by (simp add: onmessage_def split_beta)

lemma onmessage_snd:
  "snd (onmessage now src m s) =
     snd (handle_audio now src (audio m) s) @
     snd (handle_transcription m (fst (handle_audio now src (audio m) s))) @
     snd (handle_interrupted m (fst (handle_transcription m (fst (handle_audio now src (audio m) s)))))"
  by (simp add: onmessage_def split_beta)

lemma no_orphan_onmessage: "no_orphan s \<Longrightarrow> no_orphan (fst (onmessage now src m s))"
  by (simp add: no_orphan_def onmessage_fst handle_interrupted_frame handle_transcription_frame
      handle_audio_frame)

lemma no_orphan_stopSessionCleanup: "no_orphan s \<Longrightarrow> no_orphan (fst (stopSessionCleanup s))"
  by (auto simp: no_orphan_def stopSessionCleanup_state split: option.splits)

lemma no_orphan_stopSession: "no_orphan s \<Longrightarrow> no_orphan (fst (stopSession s))"
  by (auto simp: no_orphan_def stopSession_state stopSessionCleanup_state split: option.splits)

lemma startSession_catch_fst: "fst (startSession_catch evs err s) = fst (stopSession s)"
  by (simp add: startSession_catch_def split_beta)

lemma no_orphan_startSession_begin:
  "no_orphan s \<Longrightarrow> no_orphan (fst (startSession_begin env s))"
  by (auto simp: startSession_begin_def Let_def startSession_catch_fst
      stopSession_state stopSessionCleanup_state no_orphan_def split: sum.splits option.splits)

lemma no_orphan_startSession_resume:
  "no_orphan s \<Longrightarrow> no_orphan (fst (startSession_resume sys env s))"
  by (auto simp: startSession_resume_def Let_def startSession_catch_fst
      stopSession_state stopSessionCleanup_state no_orphan_def split: sum.splits option.splits)

lemma no_orphan_step: "no_orphan s \<Longrightarrow> no_orphan (fst (step x s))"
proof (cases x)
  case (StartBegin env)
  then show "no_orphan s \<Longrightarrow> ?thesis"
    using no_orphan_startSession_begin [of s env] by (simp add: split_beta)
next
  case (StartResume sys env)
  then show "no_orphan s \<Longrightarrow> ?thesis"
    using no_orphan_startSession_resume [of s sys env] by (simp add: split_beta)
next
  case Stop
  then show "no_orphan s \<Longrightarrow> ?thesis" by (simp add: no_orphan_stopSession)
next
  case (Open src proc)
  then show "no_orphan s \<Longrightarrow> ?thesis" by (simp add: onopen_def no_orphan_def)
next
  case (Message now src m)
  then show "no_orphan s \<Longrightarrow> ?thesis" by (simp add: no_orphan_onmessage)
next
  case ChannelError
  then show "no_orphan s \<Longrightarrow> ?thesis"
    using no_orphan_stopSession [of s] by (simp add: onerror_def split_beta)
next
  case ChannelClose
  then show "no_orphan s \<Longrightarrow> ?thesis"
    using no_orphan_stopSessionCleanup [of s] by (simp add: onclose_def split_beta)
next
  case (SourceEnded src)
  then show "no_orphan s \<Longrightarrow> ?thesis"
    by (simp add: source_ended_def set_delete_def no_orphan_def)
qed

lemma run_fst_Cons: "fst (run (x # xs) s) = fst (run xs (fst (step x s)))"
  by (simp add: split_beta)

lemma no_orphan_run: "no_orphan s \<Longrightarrow> no_orphan (fst (run ops s))"
proof (induction ops arbitrary: s)
  case Nil
  then show ?case by simp
next
  case (Cons x xs)
  then show ?case unfolding run_fst_Cons by (simp add: no_orphan_step)
qed

lemma no_orphan_initial: "no_orphan initial"
  by (simp add: no_orphan_def initial_def)

lemma stopSessionCleanup_stops:
  "outputAudioContext s \<noteq> None \<Longrightarrow> src \<in> set (sources s) \<Longrightarrow>
   SourceStop src \<in> set (snd (stopSessionCleanup s))"
  by (auto simp: stopSessionCleanup_def Let_def)

lemma stopSession_stops:
  "outputAudioContext s \<noteq> None \<Longrightarrow> src \<in> set (sources s) \<Longrightarrow>
   SourceStop src \<in> set (snd (stopSession s))"
  using stopSessionCleanup_stops [of "s\<lparr>sessionPromise := None\<rparr>" src] stopSessionCleanup_stops [of s src]
  by (auto simp: stopSession_def split_beta split: option.splits)

lemma teardown_empties:
  assumes "teardown x" and "no_orphan s"
  shows "sources (fst (step x s)) = []" and "outputAudioContext (fst (step x s)) = None"
    and "src \<in> set (sources s) \<Longrightarrow> SourceStop src \<in> set (snd (step x s))"
proof -
  have ctx: "src \<in> set (sources s) \<Longrightarrow> outputAudioContext s \<noteq> None"
    using assms(2) by (auto simp: no_orphan_def)
  from assms(1) consider "x = Stop" | "x = ChannelError" | "x = ChannelClose"
    by (auto simp: teardown_def)
  then have "sources (fst (step x s)) = [] \<and> outputAudioContext (fst (step x s)) = None \<and>
     (src \<in> set (sources s) \<longrightarrow> SourceStop src \<in> set (snd (step x s)))"
  proof cases
    case 1
    then show ?thesis using assms(2) ctx stopSession_stops [of s src]
      by (auto simp: stopSession_state stopSessionCleanup_state no_orphan_def split: option.splits)
  next
    case 2
    then show ?thesis using assms(2) ctx stopSession_stops [of s src]
      by (auto simp: onerror_def split_beta stopSession_state stopSessionCleanup_state no_orphan_def
          split: option.splits)
  next
    case 3
    then show ?thesis using assms(2) ctx stopSessionCleanup_stops [of s src]
      by (auto simp: onclose_def split_beta stopSessionCleanup_state no_orphan_def
          split: option.splits)
  qed
  then show "sources (fst (step x s)) = []" and "outputAudioContext (fst (step x s)) = None"
    and "src \<in> set (sources s) \<Longrightarrow> SourceStop src \<in> set (snd (step x s))"
    by auto
qed

text \<open>
  C7. In every state the object can reach from its initial state, by any sequence of
  calls and callbacks, a playback unit is tracked only while the output device is held.
  Each way of tearing the session down (\<open>stop()\<close>, a channel error, a channel close)
  stops every tracked unit, empties the set and releases the output device.
\<close>

theorem no_unit_survives_teardown:
  "no_orphan (fst (run ops initial)) \<and>
    (teardown x \<longrightarrow>
       sources (fst (step x (fst (run ops initial)))) = [] \<and>
       outputAudioContext (fst (step x (fst (run ops initial)))) = None \<and>
       (\<forall>src \<in> set (sources (fst (run ops initial))).
          SourceStop src \<in> set (snd (step x (fst (run ops initial))))))"
proof -
  have n: "no_orphan (fst (run ops initial))"
    using no_orphan_run [OF no_orphan_initial] by simp
  then show ?thesis using teardown_empties [of x "fst (run ops initial)"] by blast
qed

section \<open>Playback scheduling\<close>

subsection \<open>Concrete packets\<close>

lemma b64_index_A: "b64_index (CHR ''A'') = Some 0"
  by (simp add: b64_index_def b64_alphabet_def upt_rec)

lemma decode_AAA: "decode ''AAA='' = Inr [0, 0]"
  by (simp add: decode_def atob_def strip_padding_def ascii_whitespace_def b64_index_A)

lemma decode_AA: "decode ''AA=='' = Inr [0]"
  by (simp add: decode_def atob_def strip_padding_def ascii_whitespace_def b64_index_A)

lemma decodeAudioData_00: "decodeAudioData [0, 0] 24000 1 = Inr one_frame"
  by (simp add: decodeAudioData_def Int16Array_of_buffer_def createBuffer_def one_frame_def
      upt_rec del: One_nat_def)

lemma duration_one_frame: "duration one_frame = 1 / 24000"
  by (simp add: duration_def buffer_length_def one_frame_def)

subsection \<open>Scheduling one packet\<close>

lemma handle_audio_ok:
  assumes "b64 \<noteq> []" and "outputAudioContext s \<noteq> None" and "outputNode s \<noteq> None"
    and "decode b64 = Inr bytes" and "decodeAudioData bytes 24000 1 = Inr buf"
  shows "handle_audio now src (Some b64) s =
     (s \<lparr> nextStartTime := max (nextStartTime s) now + duration buf,
          sources := set_add (sources s) src \<rparr>,
      [SourceStart src buf (max (nextStartTime s) now)])"
  using assms by (simp add: handle_audio_def Let_def del: One_nat_def)

lemma handle_audio_AAA:
  assumes "outputAudioContext s \<noteq> None" and "outputNode s \<noteq> None"
  shows "handle_audio now src (Some ''AAA='') s =
     (s \<lparr> nextStartTime := max (nextStartTime s) now + 1 / 24000,
          sources := set_add (sources s) src \<rparr>,
      [SourceStart src one_frame (max (nextStartTime s) now)])"
  using handle_audio_ok [OF _ assms decode_AAA decodeAudioData_00, of now src]
  by (simp add: duration_one_frame)

lemma handle_audio_step:
  "(scheduled (snd (handle_audio now src a s)) = [] \<and>
      (nextStartTime (fst (handle_audio now src a s)) = nextStartTime s \<or>
       nextStartTime (fst (handle_audio now src a s)) = max (nextStartTime s) now)) \<or>
   (\<exists>d. scheduled (snd (handle_audio now src a s)) = [(max (nextStartTime s) now, d)] \<and>
      nextStartTime (fst (handle_audio now src a s)) = max (nextStartTime s) now + d)"
  by (auto simp: handle_audio_def audio_failed_def Let_def split: option.splits sum.splits)

lemma scheduled_append: "scheduled (xs @ ys) = scheduled xs @ scheduled ys"
  by (induction xs rule: scheduled.induct) simp_all

lemma scheduled_transcription: "scheduled (snd (handle_transcription m s)) = []"
  by (simp add: handle_transcription_def Let_def)

lemma scheduled_map_stop: "scheduled (map SourceStop xs) = []"
  by (induction xs) simp_all

lemma scheduled_interrupted: "scheduled (snd (handle_interrupted m s)) = []"
  by (simp add: handle_interrupted_def stop_and_delete_all scheduled_map_stop)

lemma handle_interrupted_not: "\<not> interrupted m \<Longrightarrow> handle_interrupted m s = (s, [])"
  by (simp add: handle_interrupted_def)

lemma onmessage_step:
  assumes "\<not> interrupted m"
  shows "(scheduled (snd (onmessage now src m s)) = [] \<and>
      (nextStartTime (fst (onmessage now src m s)) = nextStartTime s \<or>
       nextStartTime (fst (onmessage now src m s)) = max (nextStartTime s) now)) \<or>
   (\<exists>d. scheduled (snd (onmessage now src m s)) = [(max (nextStartTime s) now, d)] \<and>
      nextStartTime (fst (onmessage now src m s)) = max (nextStartTime s) now + d)"
  using handle_audio_step [of now src "audio m" s] assms
  by (simp add: onmessage_fst onmessage_snd scheduled_append scheduled_transcription
      handle_interrupted_not handle_transcription_frame)

lemma no_overlap_from_mono: "lo \<le> lo' \<Longrightarrow> no_overlap_from lo' xs \<Longrightarrow> no_overlap_from lo xs"
  by (cases xs) auto

lemma run_snd_Cons: "snd (run (x # xs) s) = snd (step x s) @ snd (run xs (fst (step x s)))"
  by (simp add: split_beta)

lemma handle_audio_not_entered:
  "\<not> enters_audio m s \<Longrightarrow> handle_audio now src (audio m) s = (s, [])"
  by (auto simp: enters_audio_def handle_audio_def split: option.splits)

lemma onmessage_timely_step:
  assumes "\<not> interrupted m" and "enters_audio m s \<longrightarrow> now \<le> nextStartTime s"
  shows "(scheduled (snd (onmessage now src m s)) = [] \<and>
      nextStartTime (fst (onmessage now src m s)) = nextStartTime s) \<or>
   (\<exists>d. scheduled (snd (onmessage now src m s)) = [(nextStartTime s, d)] \<and>
      nextStartTime (fst (onmessage now src m s)) = nextStartTime s + d)"
proof (cases "enters_audio m s")
  case True
  with assms(2) have "max (nextStartTime s) now = nextStartTime s" by simp
  with onmessage_step [OF assms(1), of now src s] show ?thesis by auto
next
  case False
  then show ?thesis
    using assms(1)
    by (simp add: onmessage_fst onmessage_snd handle_audio_not_entered scheduled_append
        scheduled_transcription handle_interrupted_not handle_transcription_frame)
qed

lemma step_schedule:
  assumes "no_interruption x"
  shows "(scheduled (snd (step x s)) = [] \<and> nextStartTime s \<le> nextStartTime (fst (step x s))) \<or>
   (\<exists>t d. scheduled (snd (step x s)) = [(t, d)] \<and> nextStartTime s \<le> t \<and>
      nextStartTime (fst (step x s)) = t + d)"
proof (cases x)
  case (Message now src m)
  with assms have "\<not> interrupted m" by simp
  from onmessage_step [OF this, of now src s] Message show ?thesis by auto
next
  case (SourceEnded src)
  then show ?thesis by (simp add: source_ended_def)
next
  case (Open src proc)
  then show ?thesis by (simp add: onopen_def)
qed (use assms in simp_all)

lemma step_timely:
  assumes "no_interruption x" and "timely [x] s"
  shows "(scheduled (snd (step x s)) = [] \<and> nextStartTime (fst (step x s)) = nextStartTime s) \<or>
   (\<exists>d. scheduled (snd (step x s)) = [(nextStartTime s, d)] \<and>
      nextStartTime (fst (step x s)) = nextStartTime s + d)"
proof (cases x)
  case (Message now src m)
  with assms have "\<not> interrupted m" and "enters_audio m s \<longrightarrow> now \<le> nextStartTime s"
    by simp_all
  from onmessage_timely_step [OF this, of src] Message show ?thesis by simp
next
  case (SourceEnded src)
  then show ?thesis by (simp add: source_ended_def)
next
  case (Open src proc)
  then show ?thesis by (simp add: onopen_def)
qed (use assms in simp_all)

lemma timely_Cons: "timely (x # r) s = (timely [x] s \<and> timely r (fst (step x s)))"
  by (cases x) simp_all

lemma uninterrupted_Cons: "uninterrupted (x # r) = (no_interruption x \<and> uninterrupted r)"
  by (simp add: uninterrupted_def)

lemma uninterrupted_no_overlap:
  "uninterrupted ops \<Longrightarrow> no_overlap_from (nextStartTime s) (scheduled (snd (run ops s)))"
proof (induction ops arbitrary: s)
  case Nil
  then show ?case by simp
next
  case (Cons x r)
  let ?s1 = "fst (step x s)"
  from Cons.prems have q: "no_interruption x" and u: "uninterrupted r"
    by (simp_all add: uninterrupted_Cons)
  have ih: "no_overlap_from (nextStartTime ?s1) (scheduled (snd (run r ?s1)))"
    using Cons.IH [OF u] .
  from step_schedule [OF q, of s] show ?case
  proof (elim disjE conjE exE)
    assume "scheduled (snd (step x s)) = []" and "nextStartTime s \<le> nextStartTime ?s1"
    then show ?thesis using no_overlap_from_mono [OF _ ih]
      by (simp add: run_snd_Cons scheduled_append del: run.simps)
  next
    fix t d
    assume "scheduled (snd (step x s)) = [(t, d)]" and "nextStartTime s \<le> t"
      and "nextStartTime ?s1 = t + d"
    then show ?thesis using ih
      by (simp add: run_snd_Cons scheduled_append del: run.simps)
  qed
qed

lemma timely_gapless:
  "uninterrupted ops \<Longrightarrow> timely ops s \<Longrightarrow>
   gapless_from (nextStartTime s) (scheduled (snd (run ops s)))"
proof (induction ops arbitrary: s)
  case Nil
  then show ?case by simp
next
  case (Cons x r)
  let ?s1 = "fst (step x s)"
  from Cons.prems have q: "no_interruption x" and u: "uninterrupted r"
    and t: "timely [x] s" and tr: "timely r ?s1"
    using timely_Cons [of x r s] by (simp_all add: uninterrupted_Cons)
  have ih: "gapless_from (nextStartTime ?s1) (scheduled (snd (run r ?s1)))"
    using Cons.IH [OF u tr] .
  from step_timely [OF q t] show ?case
  proof (elim disjE conjE exE)
    assume "scheduled (snd (step x s)) = []" and "nextStartTime ?s1 = nextStartTime s"
    then show ?thesis using ih
      by (simp add: run_snd_Cons scheduled_append del: run.simps)
  next
    fix d
    assume "scheduled (snd (step x s)) = [(nextStartTime s, d)]"
      and "nextStartTime ?s1 = nextStartTime s + d"
    then show ?thesis using ih
      by (simp add: run_snd_Cons scheduled_append del: run.simps)
  qed
qed

lemma no_overlap_from_nth:
  "no_overlap_from lo xs \<Longrightarrow> Suc i < length xs \<Longrightarrow> fst (xs ! i) + snd (xs ! i) \<le> fst (xs ! Suc i)"
proof (induction xs arbitrary: lo i)
  case Nil
  then show ?case by simp
next
  case (Cons x xs)
  obtain t d where x: "x = (t, d)" by (cases x)
  show ?case
  proof (cases i)
    case 0
    with Cons.prems x show ?thesis by (cases xs) auto
  next
    case (Suc j)
    with Cons x show ?thesis by auto
  qed
qed

lemma gapless_from_nth:
  "gapless_from lo xs \<Longrightarrow> Suc i < length xs \<Longrightarrow> fst (xs ! Suc i) = fst (xs ! i) + snd (xs ! i)"
proof (induction xs arbitrary: lo i)
  case Nil
  then show ?case by simp
next
  case (Cons x xs)
  obtain t d where x: "x = (t, d)" by (cases x)
  show ?case
  proof (cases i)
    case 0
    with Cons.prems x show ?thesis by (cases xs) auto
  next
    case (Suc j)
    with Cons x show ?thesis by auto
  qed
qed

lemma onmessage_schedule_AAA:
  assumes "outputAudioContext s \<noteq> None" and "outputNode s \<noteq> None"
  shows "onmessage now src (schedule ''AAA='') s =
     (s \<lparr> nextStartTime := max (nextStartTime s) now + 1 / 24000,
          sources := set_add (sources s) src \<rparr>,
      [SourceStart src one_frame (max (nextStartTime s) now),
       TranscriptionUpdate (currentInputTranscription s) (currentOutputTranscription s)])"
  using handle_audio_AAA [OF assms, of now src]
  by (simp add: onmessage_def schedule_def no_content_def handle_transcription_def
      handle_interrupted_def)

lemma run_late_packets:
  "scheduled (snd (run late_packets active0)) = [(0, 1 / 24000), (5, 1 / 24000)]"
  by (simp add: late_packets_def onmessage_schedule_AAA active0_def duration_one_frame)

lemma run_append_fst: "fst (run (xs @ ys) s) = fst (run ys (fst (run xs s)))"
  by (induction xs arbitrary: s) (simp_all add: split_beta)

lemma run_append_snd:
  "snd (run (xs @ ys) s) = snd (run xs s) @ snd (run ys (fst (run xs s)))"
  by (induction xs arbitrary: s) (simp_all add: split_beta)

lemma gapless_after:
  assumes "uninterrupted (pre @ x # mid)"
    and "scheduled (snd (step x (fst (run pre s)))) \<noteq> []"
    and "timely mid (fst (step x (fst (run pre s))))"
    and "length (scheduled (snd (run pre s))) \<le> j"
    and "Suc j < length (scheduled (snd (run (pre @ x # mid) s)))"
  shows "fst (scheduled (snd (run (pre @ x # mid) s)) ! Suc j) =
         fst (scheduled (snd (run (pre @ x # mid) s)) ! j) +
         snd (scheduled (snd (run (pre @ x # mid) s)) ! j)"
proof -
  let ?s1 = "fst (run pre s)"
  let ?s2 = "fst (step x ?s1)"
  let ?P = "scheduled (snd (run pre s))"
  let ?M = "scheduled (snd (run mid ?s2))"
  from assms(1) have q: "no_interruption x" and um: "uninterrupted mid"
    by (simp_all add: uninterrupted_def)
  from step_schedule [OF q, of ?s1] assms(2)
  obtain t d where x: "scheduled (snd (step x ?s1)) = [(t, d)]"
    and n: "nextStartTime ?s2 = t + d"
    by auto
  have g: "gapless_from t ((t, d) # ?M)"
    using timely_gapless [OF um assms(3)] n by simp
  have U: "scheduled (snd (run (pre @ x # mid) s)) = ?P @ (t, d) # ?M"
    by (simp add: run_append_snd run_snd_Cons scheduled_append x del: run.simps)
  from assms(4) obtain k where j: "j = length ?P + k"
    using le_Suc_ex by blast
  have "Suc k < length ((t, d) # ?M)"
    using assms(5) U j by simp
  from gapless_from_nth [OF g this] show ?thesis
    unfolding U j by (simp add: nth_append)
qed

lemma uninterrupted_response: "uninterrupted (first_packet # later_packets)"
  by (simp add: uninterrupted_def first_packet_def later_packets_def schedule_def no_content_def)

lemma step_first_packet:
  "step first_packet active0 =
     (active0 \<lparr> nextStartTime := 10 + 1 / 24000, sources := [8] \<rparr>,
      [SourceStart 8 one_frame 10, TranscriptionUpdate [] []])"
  by (simp add: first_packet_def onmessage_schedule_AAA active0_def set_add_def)

lemma enters_audio_schedule:
  "enters_audio (schedule p) s = (p \<noteq> [] \<and> outputAudioContext s \<noteq> None \<and> outputNode s \<noteq> None)"
  by (simp add: enters_audio_def schedule_def no_content_def)

lemma timely_later_packets: "timely later_packets (fst (step first_packet active0))"
  unfolding step_first_packet fst_conv
  by (simp add: later_packets_def onmessage_schedule_AAA enters_audio_schedule active0_def
      source_ended_def)

lemma run_response:
  "scheduled (snd (run (first_packet # later_packets) active0)) =
     [(10, 1 / 24000), (10 + 1 / 24000, 1 / 24000), (10 + 1 / 24000 + 1 / 24000, 1 / 24000)]"
  by (simp add: step_first_packet later_packets_def onmessage_schedule_AAA active0_def
      duration_one_frame source_ended_def del: step.simps(5))
    (simp add: first_packet_def onmessage_schedule_AAA active0_def duration_one_frame)

text \<open>
  C1 (as amended). For every arriving audio packet that decodes, the handler starts the
  unit at \<open>max nextStartTime now\<close> and advances \<open>nextStartTime\<close> to that start plus the
  unit's duration. In every run without an interruption, consecutive units do not
  overlap: unit \<open>i + 1\<close> starts no earlier than unit \<open>i\<close> ends. The gap between two
  consecutive units is zero whenever the packets handled since the earlier of the two
  was scheduled were handled before the output clock had passed the end of the audio
  queued by then, whenever the first packet of the run arrived; a packet handled after
  the queue has run dry starts at the clock.
\<close>

theorem schedule_back_to_back:
  "(b64 \<noteq> [] \<and> outputAudioContext s0 \<noteq> None \<and> outputNode s0 \<noteq> None \<and>
    decode b64 = Inr bytes \<and> decodeAudioData bytes 24000 1 = Inr buf \<longrightarrow>
      handle_audio now src (Some b64) s0 =
        (s0 \<lparr> nextStartTime := max (nextStartTime s0) now + duration buf,
              sources := set_add (sources s0) src \<rparr>,
         [SourceStart src buf (max (nextStartTime s0) now)])) \<and>
   (uninterrupted ops \<and> Suc i < length (scheduled (snd (run ops s))) \<longrightarrow>
      fst (scheduled (snd (run ops s)) ! i) + snd (scheduled (snd (run ops s)) ! i)
        \<le> fst (scheduled (snd (run ops s)) ! Suc i)) \<and>
   (uninterrupted (pre @ x # mid) \<and>
    scheduled (snd (step x (fst (run pre s)))) \<noteq> [] \<and>
    timely mid (fst (step x (fst (run pre s)))) \<and>
    length (scheduled (snd (run pre s))) \<le> j \<and>
    Suc j < length (scheduled (snd (run (pre @ x # mid) s))) \<longrightarrow>
      fst (scheduled (snd (run (pre @ x # mid) s)) ! Suc j) =
        fst (scheduled (snd (run (pre @ x # mid) s)) ! j) +
        snd (scheduled (snd (run (pre @ x # mid) s)) ! j))"
proof (intro conjI impI)
  assume "b64 \<noteq> [] \<and> outputAudioContext s0 \<noteq> None \<and> outputNode s0 \<noteq> None \<and>
    decode b64 = Inr bytes \<and> decodeAudioData bytes 24000 1 = Inr buf"
  then show "handle_audio now src (Some b64) s0 =
        (s0 \<lparr> nextStartTime := max (nextStartTime s0) now + duration buf,
              sources := set_add (sources s0) src \<rparr>,
         [SourceStart src buf (max (nextStartTime s0) now)])"
    by (intro handle_audio_ok) blast+
next
  assume "uninterrupted ops \<and> Suc i < length (scheduled (snd (run ops s)))"
  then show "fst (scheduled (snd (run ops s)) ! i) + snd (scheduled (snd (run ops s)) ! i)
        \<le> fst (scheduled (snd (run ops s)) ! Suc i)"
    using no_overlap_from_nth uninterrupted_no_overlap by blast
next
  assume "uninterrupted (pre @ x # mid) \<and>
    scheduled (snd (step x (fst (run pre s)))) \<noteq> [] \<and>
    timely mid (fst (step x (fst (run pre s)))) \<and>
    length (scheduled (snd (run pre s))) \<le> j \<and>
    Suc j < length (scheduled (snd (run (pre @ x # mid) s)))"
  then show "fst (scheduled (snd (run (pre @ x # mid) s)) ! Suc j) =
        fst (scheduled (snd (run (pre @ x # mid) s)) ! j) +
        snd (scheduled (snd (run (pre @ x # mid) s)) ! j)"
    by (intro gapless_after) blast+
qed

theorem schedule_back_to_back_witness:
  "handle_audio 10 8 (Some ''AAA='') active0 =
     (active0 \<lparr> nextStartTime := 10 + 1 / 24000, sources := [8] \<rparr>,
      [SourceStart 8 one_frame 10]) \<and>
   nextStartTime active0 = 0 \<and>
   uninterrupted (first_packet # later_packets) \<and>
   scheduled (snd (step first_packet active0)) \<noteq> [] \<and>
   timely later_packets (fst (step first_packet active0)) \<and>
   scheduled (snd (run (first_packet # later_packets) active0)) =
     [(10, 1 / 24000), (10 + 1 / 24000, 1 / 24000), (10 + 1 / 24000 + 1 / 24000, 1 / 24000)] \<and>
   fst (scheduled (snd (run (first_packet # later_packets) active0)) ! Suc 0) =
     fst (scheduled (snd (run (first_packet # later_packets) active0)) ! 0) +
     snd (scheduled (snd (run (first_packet # later_packets) active0)) ! 0) \<and>
   fst (scheduled (snd (run (first_packet # later_packets) active0)) ! Suc (Suc 0)) =
     fst (scheduled (snd (run (first_packet # later_packets) active0)) ! Suc 0) +
     snd (scheduled (snd (run (first_packet # later_packets) active0)) ! Suc 0)"
proof -
  have a: "outputAudioContext active0 \<noteq> None" "outputNode active0 \<noteq> None" "''AAA='' \<noteq> []"
    by (simp_all add: active0_def)
  have n: "nextStartTime active0 = 0" "set_add (sources active0) 8 = [8]"
    by (simp_all add: active0_def set_add_def)
  have f: "scheduled (snd (step first_packet active0)) \<noteq> []"
    unfolding step_first_packet by simp
  have l: "Suc 0 < length (scheduled (snd (run (first_packet # later_packets) active0)))"
    "Suc (Suc 0) < length (scheduled (snd (run (first_packet # later_packets) active0)))"
    unfolding run_response by simp_all
  have z: "(0 :: nat) \<le> 0" "(0 :: nat) \<le> Suc 0"
    by simp_all
  have h: "handle_audio 10 8 (Some ''AAA='') active0 =
     (active0 \<lparr> nextStartTime := 10 + 1 / 24000, sources := [8] \<rparr>,
      [SourceStart 8 one_frame 10])"
    using schedule_back_to_back [where ?b64.0 = "''AAA=''" and ?s0.0 = active0
        and bytes = "[0, 0]" and buf = one_frame and now = 10 and src = 8]
      a n decode_AAA decodeAudioData_00 duration_one_frame
    by simp
  note pair = schedule_back_to_back [where pre = "[]" and x = first_packet
      and mid = later_packets and s = active0,
      unfolded append_Nil run.simps(1) fst_conv snd_conv scheduled.simps(1) list.size(3)]
  have g0: "fst (scheduled (snd (run (first_packet # later_packets) active0)) ! Suc 0) =
     fst (scheduled (snd (run (first_packet # later_packets) active0)) ! 0) +
     snd (scheduled (snd (run (first_packet # later_packets) active0)) ! 0)"
    using pair [where j = 0] uninterrupted_response f timely_later_packets l(1) z(1) by blast
  have g1: "fst (scheduled (snd (run (first_packet # later_packets) active0)) ! Suc (Suc 0)) =
     fst (scheduled (snd (run (first_packet # later_packets) active0)) ! Suc 0) +
     snd (scheduled (snd (run (first_packet # later_packets) active0)) ! Suc 0)"
    using pair [where j = "Suc 0"] uninterrupted_response f timely_later_packets l(2) z(2)
    by blast
  show ?thesis
    using h n(1) uninterrupted_response f timely_later_packets run_response g0 g1 by blast
qed

text \<open>
  The claim as stated (a zero gap between any two consecutive units of an uninterrupted
  run) fails when the second packet arrives after the first unit has ended: the first
  unit ends at \<open>1/24000\<close>, the second starts at \<open>5\<close>.
\<close>

theorem late_packet_counterexample:
  "uninterrupted late_packets \<and> Suc 0 < length (scheduled (snd (run late_packets active0))) \<and>
   fst (scheduled (snd (run late_packets active0)) ! Suc 0) \<noteq>
     fst (scheduled (snd (run late_packets active0)) ! 0) +
     snd (scheduled (snd (run late_packets active0)) ! 0)"
  by (simp add: run_late_packets)
    (simp add: uninterrupted_def late_packets_def schedule_def no_content_def)

section \<open>Interruption\<close>

lemma handle_interrupted_yes:
  "interrupted m \<Longrightarrow>
   handle_interrupted m s = (s \<lparr> sources := [], nextStartTime := 0 \<rparr>, map SourceStop (sources s))"
  by (simp add: handle_interrupted_def stop_and_delete_all)

lemma handle_audio_after_reset:
  "nextStartTime s = 0 \<Longrightarrow> 0 \<le> now \<Longrightarrow>
   \<forall>u \<in> set (scheduled (snd (handle_audio now src a s))). fst u = now"
  using handle_audio_step [of now src a s] by auto

text \<open>
  C2 (as amended). When a message with the \<open>interrupted\<close> flag is handled, every unit
  tracked at that point is stopped, the set is emptied and \<open>nextStartTime\<close> is reset to
  \<open>0\<close>, which is at most the output clock; the next unit scheduled then starts at the
  output clock of its own arrival.
\<close>

theorem interrupt_stops_and_resets:
  "interrupted m \<and> 0 \<le> now \<and> 0 \<le> now' \<longrightarrow>
     snd (handle_interrupted m s) = map SourceStop (sources s) \<and>
     sources (fst (handle_interrupted m s)) = [] \<and>
     sources (fst (onmessage now src m s)) = [] \<and>
     nextStartTime (fst (onmessage now src m s)) = 0 \<and>
     nextStartTime (fst (onmessage now src m s)) \<le> now \<and>
     (\<forall>u \<in> set (scheduled (snd (handle_audio now' src' a (fst (onmessage now src m s))))).
        fst u = now')"
proof (intro impI, elim conjE)
  assume i: "interrupted m" and n: "0 \<le> now" and n': "0 \<le> now'"
  have z: "nextStartTime (fst (onmessage now src m s)) = 0"
    using i by (simp add: onmessage_fst handle_interrupted_yes)
  show "snd (handle_interrupted m s) = map SourceStop (sources s) \<and>
     sources (fst (handle_interrupted m s)) = [] \<and>
     sources (fst (onmessage now src m s)) = [] \<and>
     nextStartTime (fst (onmessage now src m s)) = 0 \<and>
     nextStartTime (fst (onmessage now src m s)) \<le> now \<and>
     (\<forall>u \<in> set (scheduled (snd (handle_audio now' src' a (fst (onmessage now src m s))))).
        fst u = now')"
    using i n z handle_audio_after_reset [OF z n']
    by (simp add: handle_interrupted_yes onmessage_fst)
qed

lemma onmessage_interrupt:
  "onmessage now src interrupt s =
     (s \<lparr> sources := [], nextStartTime := 0 \<rparr>,
      TranscriptionUpdate (currentInputTranscription s) (currentOutputTranscription s)
        # map SourceStop (sources s))"
  by (simp add: onmessage_def interrupt_def no_content_def handle_audio_def
      handle_transcription_def handle_interrupted_yes)

theorem interrupt_stops_and_resets_witness:
  "interrupted interrupt \<and> (0 :: rat) \<le> 5 \<and> (0 :: rat) \<le> 6 \<and>
   snd (handle_interrupted interrupt playing0) = [SourceStop 8, SourceStop 9] \<and>
   sources (fst (onmessage 5 10 interrupt playing0)) = [] \<and>
   nextStartTime (fst (onmessage 5 10 interrupt playing0)) = 0 \<and>
   scheduled (snd (handle_audio 6 11 (Some ''AAA='') (fst (onmessage 5 10 interrupt playing0)))) =
     [(6, 1 / 24000)]"
proof -
  have i: "interrupted interrupt" by (simp add: interrupt_def no_content_def)
  have s: "sources playing0 = [8, 9]" by (simp add: playing0_def)
  have h: "scheduled (snd (handle_audio 6 11 (Some ''AAA='') (fst (onmessage 5 10 interrupt playing0)))) =
     [(6, 1 / 24000)]"
    by (simp add: onmessage_interrupt handle_audio_AAA playing0_def active0_def duration_one_frame)
  show ?thesis
    using interrupt_stops_and_resets [where m = interrupt and now = 5 and now' = 6 and s = playing0
        and src = 10 and src' = 11 and a = "Some ''AAA=''"] i s h
    by simp
qed

text \<open>
  The claim as stated (a reset to the clock's value at the interruption) fails: with the
  clock at \<open>5\<close>, \<open>nextStartTime\<close> is \<open>0\<close> after the interruption.
\<close>

theorem interrupt_reset_counterexample:
  "interrupted interrupt \<and> nextStartTime (fst (onmessage 5 10 interrupt playing0)) \<noteq> 5"
  by (simp add: onmessage_interrupt) (simp add: interrupt_def no_content_def)

section \<open>Transcripts\<close>

lemma handle_transcription_turnComplete:
  "turnComplete m \<Longrightarrow>
   handle_transcription m s =
     (s \<lparr> currentOutputTranscription := [], currentInputTranscription := [] \<rparr>,
      [TranscriptionUpdate
         (currentInputTranscription s @ (case inputTranscription m of Some t \<Rightarrow> t | None \<Rightarrow> []))
         (currentOutputTranscription s @ (case outputTranscription m of Some t \<Rightarrow> t | None \<Rightarrow> []))])"
  by (cases "inputTranscription m"; cases "outputTranscription m")
     (simp_all add: handle_transcription_def Let_def)

lemma onmessage_markTurnComplete:
  "onmessage now src markTurnComplete s =
     (s \<lparr> currentOutputTranscription := [], currentInputTranscription := [] \<rparr>,
      [TranscriptionUpdate (currentInputTranscription s) (currentOutputTranscription s)])"
  by (simp add: onmessage_def markTurnComplete_def no_content_def handle_audio_def
      handle_transcription_def handle_interrupted_def)

lemma onmessage_appendInput:
  "onmessage now src (appendInput t) s =
     (s \<lparr> currentInputTranscription := currentInputTranscription s @ t \<rparr>,
      [TranscriptionUpdate (currentInputTranscription s @ t) (currentOutputTranscription s)])"
  by (simp add: onmessage_def appendInput_def no_content_def handle_audio_def
      handle_transcription_def handle_interrupted_def)

text \<open>
  C4. Whatever the buffers hold, handling a message with the \<open>turnComplete\<close> flag first
  hands the observer the accumulated input and output text (with what the same message
  appends), then leaves both buffers empty, so that a following \<open>appendInput t\<close> shows
  \<open>t\<close> alone.
\<close>

theorem turn_complete_flushes:
  "turnComplete m \<longrightarrow>
     snd (handle_transcription m s) =
       [TranscriptionUpdate
          (currentInputTranscription s @ (case inputTranscription m of Some t \<Rightarrow> t | None \<Rightarrow> []))
          (currentOutputTranscription s @ (case outputTranscription m of Some t \<Rightarrow> t | None \<Rightarrow> []))] \<and>
     currentInputTranscription (fst (handle_transcription m s)) = [] \<and>
     currentOutputTranscription (fst (handle_transcription m s)) = [] \<and>
     snd (onmessage now src markTurnComplete s) =
       [TranscriptionUpdate (currentInputTranscription s) (currentOutputTranscription s)] \<and>
     currentInputTranscription (fst (onmessage now src markTurnComplete s)) = [] \<and>
     currentOutputTranscription (fst (onmessage now src markTurnComplete s)) = [] \<and>
     snd (onmessage now' src' (appendInput t) (fst (onmessage now src markTurnComplete s))) =
       [TranscriptionUpdate t []]"
  by (simp add: handle_transcription_turnComplete onmessage_markTurnComplete onmessage_appendInput)

theorem turn_complete_flushes_witness:
  "turnComplete markTurnComplete \<and>
   snd (run [Message 0 8 (appendInput ''hel''), Message 0 8 (appendInput ''lo''),
             Message 0 8 markTurnComplete, Message 0 8 (appendInput ''hi'')] initial) =
     [TranscriptionUpdate ''hel'' [], TranscriptionUpdate ''hello'' [],
      TranscriptionUpdate ''hello'' [], TranscriptionUpdate ''hi'' []] \<and>
   currentInputTranscription
     (fst (run [Message 0 8 (appendInput ''hel''), Message 0 8 (appendInput ''lo''),
                Message 0 8 markTurnComplete] initial)) = []"
proof -
  let ?s = "fst (run [Message 0 8 (appendInput ''hel''), Message 0 8 (appendInput ''lo'')] initial)"
  have t: "turnComplete markTurnComplete" by (simp add: markTurnComplete_def no_content_def)
  have s: "currentInputTranscription ?s = ''hello''" "currentOutputTranscription ?s = []"
    by (simp_all add: onmessage_appendInput initial_def)
  show ?thesis
    using turn_complete_flushes [where m = markTurnComplete and s = ?s and now = 0 and src = 8
        and now' = 0 and src' = 8 and t = "''hi''"] t s
    by (simp add: onmessage_appendInput onmessage_markTurnComplete initial_def)
qed

section \<open>A packet that does not decode\<close>

lemma decodeAudioData_odd:
  "odd (length bytes) \<Longrightarrow> decodeAudioData bytes rate numChannels = Inl (Error ''RangeError'')"
  by (simp add: decodeAudioData_def Int16Array_of_buffer_def)

lemma handle_audio_odd:
  assumes "b64 \<noteq> []" and "outputAudioContext s \<noteq> None" and "outputNode s \<noteq> None"
    and "decode b64 = Inr bytes" and "odd (length bytes)"
  shows "handle_audio now src (Some b64) s =
     (s \<lparr> nextStartTime := max (nextStartTime s) now \<rparr>,
      [ConsoleError ''Error decoding or playing audio:'',
       SetError (Some ''Failed to play audio response.'')])"
  using assms decodeAudioData_odd [of bytes 24000 1]
  by (simp add: handle_audio_def audio_failed_def Let_def del: One_nat_def)

lemma handle_audio_handles: "session_handles (fst (handle_audio now src a s)) = session_handles s"
  by (auto simp: handle_audio_def audio_failed_def session_handles_def Let_def
      split: option.splits sum.splits)

lemma handle_transcription_handles:
  "session_handles (fst (handle_transcription m s)) = session_handles s"
  by (auto simp: handle_transcription_def session_handles_def Let_def split: option.splits)

lemma handle_interrupted_handles:
  "session_handles (fst (handle_interrupted m s)) = session_handles s"
  by (cases "interrupted m") (simp_all add: handle_interrupted_yes handle_interrupted_not
      session_handles_def)

lemma onmessage_handles: "session_handles (fst (onmessage now src m s)) = session_handles s"
  by (simp add: onmessage_fst handle_interrupted_handles handle_transcription_handles
      handle_audio_handles)

text \<open>
  C5. A byte sequence of odd length does not decode: \<open>decodeAudioData\<close> throws (a
  \<open>RangeError\<close>, from the \<open>Int16Array\<close> constructor). In the message handler the failure
  is caught: it is logged and reported to the error observer, no unit is started or
  tracked for the packet, the rest of the message is handled as usual, and every handle
  of the session is left as it was, so the session goes on.
\<close>

theorem odd_packet_is_skipped:
  "odd (length bytes) \<longrightarrow>
     decodeAudioData bytes rate numChannels = Inl (Error ''RangeError'') \<and>
     (audio m = Some b64 \<and> b64 \<noteq> [] \<and> outputAudioContext s \<noteq> None \<and> outputNode s \<noteq> None \<and>
      decode b64 = Inr bytes \<longrightarrow>
        handle_audio now src (audio m) s =
          (s \<lparr> nextStartTime := max (nextStartTime s) now \<rparr>,
           [ConsoleError ''Error decoding or playing audio:'',
            SetError (Some ''Failed to play audio response.'')]) \<and>
        scheduled (snd (onmessage now src m s)) = [] \<and>
        sources (fst (onmessage now src m s)) = (if interrupted m then [] else sources s) \<and>
        snd (onmessage now src m s) =
          [ConsoleError ''Error decoding or playing audio:'',
           SetError (Some ''Failed to play audio response.'')] @
          snd (onmessage now src (m \<lparr> audio := None \<rparr>) s) \<and>
        session_handles (fst (onmessage now src m s)) = session_handles s)"
proof (intro impI conjI)
  assume o: "odd (length bytes)"
  then show "decodeAudioData bytes rate numChannels = Inl (Error ''RangeError'')"
    by (rule decodeAudioData_odd)
  assume h: "audio m = Some b64 \<and> b64 \<noteq> [] \<and> outputAudioContext s \<noteq> None \<and> outputNode s \<noteq> None \<and>
      decode b64 = Inr bytes"
  then have a: "handle_audio now src (audio m) s =
          (s \<lparr> nextStartTime := max (nextStartTime s) now \<rparr>,
           [ConsoleError ''Error decoding or playing audio:'',
            SetError (Some ''Failed to play audio response.'')])"
    using handle_audio_odd [of b64 s bytes now src] o by simp
  then show "handle_audio now src (audio m) s =
          (s \<lparr> nextStartTime := max (nextStartTime s) now \<rparr>,
           [ConsoleError ''Error decoding or playing audio:'',
            SetError (Some ''Failed to play audio response.'')])" .
  show "scheduled (snd (onmessage now src m s)) = []"
    using a by (simp add: onmessage_snd scheduled_append scheduled_transcription
        scheduled_interrupted)
  show "sources (fst (onmessage now src m s)) = (if interrupted m then [] else sources s)"
    using a by (simp add: onmessage_fst handle_interrupted_frame handle_transcription_frame)
  have t: "handle_transcription m (s \<lparr> nextStartTime := max (nextStartTime s) now \<rparr>) =
      (fst (handle_transcription m s) \<lparr> nextStartTime := max (nextStartTime s) now \<rparr>,
       snd (handle_transcription m s))"
    by (cases "inputTranscription m"; cases "outputTranscription m")
       (simp_all add: handle_transcription_def Let_def)
  have i: "snd (handle_interrupted m (s' \<lparr> nextStartTime := x \<rparr>)) = snd (handle_interrupted m s')"
    for s' x
    by (cases "interrupted m") (simp_all add: handle_interrupted_yes handle_interrupted_not)
  show "snd (onmessage now src m s) =
          [ConsoleError ''Error decoding or playing audio:'',
           SetError (Some ''Failed to play audio response.'')] @
          snd (onmessage now src (m \<lparr> audio := None \<rparr>) s)"
    using a t i
    by (simp add: onmessage_snd handle_audio_def handle_transcription_def handle_interrupted_def)
  show "session_handles (fst (onmessage now src m s)) = session_handles s"
    by (rule onmessage_handles)
qed

theorem odd_packet_is_skipped_witness:
  "decode ''AA=='' = Inr [0] \<and> odd (length [0 :: byte]) \<and>
   decodeAudioData [0] 24000 1 = Inl (Error ''RangeError'') \<and>
   onmessage 5 8 (schedule ''AA=='') active0 =
     (active0 \<lparr> nextStartTime := 5 \<rparr>,
      [ConsoleError ''Error decoding or playing audio:'',
       SetError (Some ''Failed to play audio response.''),
       TranscriptionUpdate [] []])"
proof -
  have m: "audio (schedule ''AA=='') = Some ''AA==''" "\<not> interrupted (schedule ''AA=='')"
    by (simp_all add: schedule_def no_content_def)
  have a: "outputAudioContext active0 \<noteq> None" "outputNode active0 \<noteq> None"
    "nextStartTime active0 = 0"
    by (simp_all add: active0_def)
  have o: "odd (length [0 :: byte])" by simp
  have e: "handle_audio 5 8 (audio (schedule ''AA=='')) active0 =
          (active0 \<lparr> nextStartTime := max (nextStartTime active0) 5 \<rparr>,
           [ConsoleError ''Error decoding or playing audio:'',
            SetError (Some ''Failed to play audio response.'')])"
    and d: "decodeAudioData [0] 24000 1 = Inl (Error ''RangeError'')"
    using odd_packet_is_skipped [where bytes = "[0]" and rate = 24000 and numChannels = 1
        and m = "schedule ''AA==''" and ?b64.0 = "''AA==''" and s = active0 and now = 5 and src = 8]
      m a o decode_AA
    by simp_all
  have "onmessage 5 8 (schedule ''AA=='') active0 =
     (active0 \<lparr> nextStartTime := 5 \<rparr>,
      [ConsoleError ''Error decoding or playing audio:'',
       SetError (Some ''Failed to play audio response.''),
       TranscriptionUpdate [] []])"
    using e a m
    by (simp add: onmessage_def handle_transcription_def handle_interrupted_def schedule_def
        no_content_def) (simp add: active0_def)
  then show ?thesis using decode_AA d o by simp
qed

section \<open>Encoding a frame\<close>

lemma trunc_int_bounds:
  assumes "- 1 \<le> s" and "s < 1"
  shows "- 32768 \<le> trunc_int (s * 32768)" and "trunc_int (s * 32768) < 32768"
proof -
  have lo: "- 32768 \<le> s * 32768" using assms(1) by simp
  have hi: "s * 32768 < 32768" using assms(2) by simp
  have f1: "(- 32768 :: int) \<le> \<lfloor>s * 32768\<rfloor>"
    using lo by (simp add: le_floor_iff)
  have f2: "\<lfloor>s * 32768\<rfloor> < (32768 :: int)"
    using hi by (simp add: floor_less_iff)
  have c1: "(- 32768 :: int) \<le> \<lceil>s * 32768\<rceil>"
    using lo by (simp add: le_ceiling_iff)
  have c2: "\<lceil>s * 32768\<rceil> \<le> (32768 :: int)"
    using hi by (simp add: ceiling_le_iff)
  have c3: "\<not> 0 \<le> s * 32768 \<Longrightarrow> \<lceil>s * 32768\<rceil> \<le> (0 :: int)"
    by (simp add: ceiling_le_iff)
  show "- 32768 \<le> trunc_int (s * 32768)"
    unfolding trunc_int_def using f1 c1 by (cases "0 \<le> s * 32768") (simp_all only: if_True if_False)
  show "trunc_int (s * 32768) < 32768"
    unfolding trunc_int_def using f2 c3
    by (cases "0 \<le> s * 32768") (simp_all only: if_True if_False, linarith)
qed

lemma sint_ToInt16:
  assumes "- 32768 \<le> trunc_int x" and "trunc_int x < 32768"
  shows "sint (ToInt16 x) = trunc_int x"
  unfolding ToInt16_def using assms
  by (simp add: sint_sbintrunc' signed_take_bit_int_eq_self)

lemma unat_byte_le: "unat (w :: byte) \<le> 255"
proof -
  have "unat w < 2 ^ LENGTH(8)" by (rule unsigned_less)
  then show ?thesis by simp
qed

lemma encode_total: "\<exists>t. encode bytes = Inr t"
  by (simp add: encode_def btoa_def list_ex_iff not_less unat_byte_le)

lemma createBlob_int16_three_quarters: "sint (createBlob_int16 [3 / 4] ! 0) = 24576"
proof -
  have t: "trunc_int (3 / 4 * 32768) = 24576" by (simp add: trunc_int_def)
  then show ?thesis using sint_ToInt16 [of "3 / 4 * 32768"] by (simp add: createBlob_int16_def)
qed

lemma createBlob_int16_one: "sint (createBlob_int16 [1] ! 0) = - 32768"
  by (simp add: createBlob_int16_def ToInt16_def trunc_int_def)

text \<open>
  C3 (as amended). \<open>createBlob\<close> maps each sample \<open>s\<close> with \<open>-1 \<le> s < 1\<close> to the 16-bit
  integer obtained from \<open>s * 32768\<close> by dropping the fraction (truncation towards zero);
  it keeps the number and order of the samples; it is a function of the frame alone and
  always returns a blob, whose data is the base64 text of the samples' bytes.
\<close>

theorem createBlob_truncates:
  "length (createBlob_int16 samples) = length samples \<and>
   (i < length samples \<and> - 1 \<le> samples ! i \<and> samples ! i < 1 \<longrightarrow>
      sint (createBlob_int16 samples ! i) = trunc_int (samples ! i * 32768)) \<and>
   (\<exists>b64. encode (int16_bytes (createBlob_int16 samples)) = Inr b64 \<and>
      createBlob samples = Inr \<lparr> data = b64, mimeType = ''audio/pcm;rate=16000'' \<rparr>)"
proof (intro conjI impI)
  show "length (createBlob_int16 samples) = length samples"
    by (simp add: createBlob_int16_def)
  obtain b64 where e: "encode (int16_bytes (createBlob_int16 samples)) = Inr b64"
    using encode_total by blast
  then show "\<exists>b64. encode (int16_bytes (createBlob_int16 samples)) = Inr b64 \<and>
      createBlob samples = Inr \<lparr> data = b64, mimeType = ''audio/pcm;rate=16000'' \<rparr>"
    by (simp add: createBlob_def)
  assume "i < length samples \<and> - 1 \<le> samples ! i \<and> samples ! i < 1"
  then show "sint (createBlob_int16 samples ! i) = trunc_int (samples ! i * 32768)"
    using trunc_int_bounds [of "samples ! i"] sint_ToInt16 [of "samples ! i * 32768"]
    by (simp add: createBlob_int16_def)
qed

theorem createBlob_truncates_witness:
  "(0 :: nat) < length [3 / 4 :: rat] \<and> (- 1 :: rat) \<le> [3 / 4] ! 0 \<and> ([3 / 4] ! 0 :: rat) < 1 \<and>
   sint (createBlob_int16 [3 / 4] ! 0) = 24576"
proof -
  have t: "trunc_int (3 / 4 * 32768) = 24576" by (simp add: trunc_int_def)
  show ?thesis
    using createBlob_truncates [where samples = "[3 / 4]" and i = 0] t by simp
qed

text \<open>
  The claim as stated fails already inside the range: it gives \<open>round(0.75 * 32767) = 24575\<close>
  for the sample \<open>0.75\<close>, which the code encodes as \<open>24576\<close>.
\<close>

theorem createBlob_scale_counterexample:
  "sint (createBlob_int16 [3 / 4] ! 0) \<noteq> spec_encode_sample (3 / 4)"
proof -
  have "\<lfloor>98303 / 4 :: rat\<rfloor> = 24575"
    by (rule floor_unique) simp_all
  then show ?thesis
    by (simp add: createBlob_int16_three_quarters spec_encode_sample_def round_def)
qed

section \<open>Teardown after playback\<close>

lemma run_session_with_audio:
  "fst (run session_with_audio initial) = active0 \<lparr> sources := [8], nextStartTime := 1 / 24000 \<rparr>"
  by (simp add: session_with_audio_def env0_def active0_def initial_def startSession_begin_def
      startSession_resume_def onopen_def onmessage_schedule_AAA set_add_def Let_def)

theorem no_unit_survives_teardown_witness:
  "teardown Stop \<and> sources (fst (run session_with_audio initial)) = [8] \<and>
   no_orphan (fst (run session_with_audio initial)) \<and>
   sources (fst (step Stop (fst (run session_with_audio initial)))) = [] \<and>
   SourceStop 8 \<in> set (snd (step Stop (fst (run session_with_audio initial))))"
proof -
  have s: "sources (fst (run session_with_audio initial)) = [8]"
    by (simp add: run_session_with_audio)
  show ?thesis
    using no_unit_survives_teardown [where ops = session_with_audio and x = Stop] s
    by (simp add: teardown_def)
qed

section \<open>Starting a session\<close>

lemma startSession_begin_active:
  "sessionPromise s \<noteq> None \<Longrightarrow>
   startSession_begin env s = (s, [ConsoleWarn ''Session already active.''], Returned None)"
  by (simp add: startSession_begin_def)

lemma startSession_active:
  "sessionPromise s \<noteq> None \<Longrightarrow>
   startSession sys env s = (s, [ConsoleWarn ''Session already active.''], Returned None)"
  by (simp add: startSession_def startSession_begin_active)

lemma run_double_start:
  "run double_start initial =
     (initial,
      [SetError None, TranscriptionUpdate [] [], ContextCreated 1 16000, ContextCreated 2 24000,
       NodeConnected 3,
       SetError None, TranscriptionUpdate [] [], ContextCreated 11 16000,
       ContextCreated 12 24000, NodeConnected 13,
       MicrophoneOpened 4,
       ChannelRequested 5 ''You are a friendly and helpful AI assistant.'',
       MicrophoneOpened 14,
       ChannelRequested 15 ''You are a friendly and helpful AI assistant.'',
       ChannelCloseRequested 15, TracksStopped 14, ContextClosed 11, ContextClosed 12,
       NodeDisconnected 13, TranscriptionUpdate [] [],
       ConsoleDebug ''Live session cleanup complete.''])"
  by (simp add: double_start_def startSession_begin_def startSession_resume_def
      stopSession_def stopSessionCleanup_def env0_def env1_def initial_def Let_def)

text \<open>
  C8. A call of \<open>startSession\<close> on a session that is connecting or active is to be
  rejected with a warning and to change nothing. The guard of \<open>startSession\<close> does so
  once \<open>sessionPromise\<close> is set (lemmas \<open>startSession_active\<close> and
  \<open>startSession_begin_active\<close>). It misses the session that is connecting but still
  awaits the microphone, where \<open>sessionPromise\<close> is still null: a second call there is
  not rejected; it writes no warning, clears the error, and replaces the two audio
  contexts and the gain node of the first call. Once both calls have resumed, the
  stream and the channel of the first are replaced as well, and a later \<open>stopSession\<close>
  releases only what the second call acquired: the object is back in its initial state
  while the contexts, the gain node, the stream and the channel of the first call stay
  open.
\<close>

theorem second_start_while_connecting:
  "startSession_begin env0 initial =
     (connecting0,
      [SetError None, TranscriptionUpdate [] [], ContextCreated 1 16000, ContextCreated 2 24000,
       NodeConnected 3],
      AwaitingMicrophone) \<and>
   startSession_begin env1 connecting0 =
     (connecting0 \<lparr> inputAudioContext := Some 11, outputAudioContext := Some 12,
        outputNode := Some 13 \<rparr>,
      [SetError None, TranscriptionUpdate [] [], ContextCreated 11 16000, ContextCreated 12 24000,
       NodeConnected 13],
      AwaitingMicrophone) \<and>
   fst (startSession_begin env1 connecting0) \<noteq> connecting0 \<and>
   fst (run double_start initial) = initial \<and>
   ContextClosed 1 \<notin> set (snd (run double_start initial)) \<and>
   ContextClosed 2 \<notin> set (snd (run double_start initial)) \<and>
   NodeDisconnected 3 \<notin> set (snd (run double_start initial)) \<and>
   TracksStopped 4 \<notin> set (snd (run double_start initial)) \<and>
   ChannelCloseRequested 5 \<notin> set (snd (run double_start initial)) \<and>
   \<not> leak_free (snd (run double_start initial))"
proof -
  have b1: "startSession_begin env0 initial =
     (connecting0,
      [SetError None, TranscriptionUpdate [] [], ContextCreated 1 16000, ContextCreated 2 24000,
       NodeConnected 3],
      AwaitingMicrophone)"
    by (simp add: startSession_begin_def env0_def connecting0_def initial_def Let_def)
  have b2: "startSession_begin env1 connecting0 =
     (connecting0 \<lparr> inputAudioContext := Some 11, outputAudioContext := Some 12,
        outputNode := Some 13 \<rparr>,
      [SetError None, TranscriptionUpdate [] [], ContextCreated 11 16000, ContextCreated 12 24000,
       NodeConnected 13],
      AwaitingMicrophone)"
    by (simp add: startSession_begin_def env1_def connecting0_def initial_def Let_def)
  have b3: "fst (startSession_begin env1 connecting0) \<noteq> connecting0"
    by (simp add: startSession_begin_def env1_def connecting0_def initial_def Let_def)
  have r: "fst (run double_start initial) = initial"
    "ContextClosed 1 \<notin> set (snd (run double_start initial))"
    "ContextClosed 2 \<notin> set (snd (run double_start initial))"
    "NodeDisconnected 3 \<notin> set (snd (run double_start initial))"
    "TracksStopped 4 \<notin> set (snd (run double_start initial))"
    "ChannelCloseRequested 5 \<notin> set (snd (run double_start initial))"
    unfolding run_double_start by simp_all
  have l: "\<not> leak_free (snd (run double_start initial))"
    unfolding run_double_start by (simp add: leak_free_def)
  show ?thesis
    using b1 b2 b3 r l by blast
qed

section \<open>A start that fails\<close>

lemma stopSession_leaves_closed: "closed s \<Longrightarrow> stopSession s = (s, [TranscriptionUpdate [] [],
    ConsoleDebug ''Live session cleanup complete.''])"
  using stopSession_closed_state [of s] stopSession_closed_events [of s]
  by (cases "stopSession s") simp

lemma first_fault_cases:
  "first_fault env = Some err \<Longrightarrow>
     new_input_context env = Inl err \<or>
     (\<exists>ic. new_input_context env = Inr ic \<and> new_output_context env = Inl err) \<or>
     (\<exists>ic oc. new_input_context env = Inr ic \<and> new_output_context env = Inr oc \<and>
        get_user_media env = Inl err) \<or>
     (\<exists>ic oc ms. new_input_context env = Inr ic \<and> new_output_context env = Inr oc \<and>
        get_user_media env = Inr ms \<and> new_client env = Inl err)"
  by (auto simp: first_fault_def split: sum.splits)

lemma first_fault_none:
  "first_fault env = None \<Longrightarrow>
     \<exists>ic oc ms. new_input_context env = Inr ic \<and> new_output_context env = Inr oc \<and>
        get_user_media env = Inr ms \<and> new_client env = Inr ()"
  by (auto simp: first_fault_def split: sum.splits)

lemma closed_sources: "closed s \<Longrightarrow> no_orphan s \<Longrightarrow> sources s = []"
  by (simp add: closed_def no_orphan_def)

lemma startSession_fails:
  assumes "closed s" and "no_orphan s" and "first_fault env = Some err"
  shows "closed (fst (startSession sys env s))"
    and "sources (fst (startSession sys env s)) = []"
    and "snd (snd (startSession sys env s)) = Returned (Some False)"
    and "SetError (Some (''Failed to start voice chat: '' @ error_message err))
           \<in> set (fst (snd (startSession sys env s)))"
    and "leak_free (fst (snd (startSession sys env s)))"
  using assms(1) closed_sources [OF assms(1,2)] first_fault_cases [OF assms(3)]
  by (auto simp: startSession_def startSession_begin_def startSession_resume_def
      startSession_catch_def stopSession_def stopSessionCleanup_def closed_def leak_free_def
      Let_def)

lemma startSession_fails_initial:
  assumes "first_fault env = Some err"
  shows "fst (startSession sys env initial) = initial"
  using first_fault_cases [OF assms]
  by (auto simp: startSession_def startSession_begin_def startSession_resume_def
      startSession_catch_def stopSession_def stopSessionCleanup_def initial_def Let_def)

lemma startSession_succeeds:
  assumes "sessionPromise s = None" and "first_fault env = None"
  shows "snd (snd (startSession sys env s)) = Returned (Some True)"
    and "sessionPromise (fst (startSession sys env s)) = Some (live_connect env)"
  using assms(1) first_fault_none [OF assms(2)]
  by (auto simp: startSession_def startSession_begin_def startSession_resume_def Let_def)

lemma onerror_after_start:
  assumes "closed s" and "no_orphan s" and "first_fault env = None"
  shows "closed (fst (onerror (fst (startSession sys env s))))"
    and "sources (fst (onerror (fst (startSession sys env s)))) = []"
    and "SetError (Some ''Voice chat encountered an error. Please try again.'')
           \<in> set (snd (onerror (fst (startSession sys env s))))"
    and "leak_free (fst (snd (startSession sys env s)) @ snd (onerror (fst (startSession sys env s))))"
  using assms(1) closed_sources [OF assms(1,2)] first_fault_none [OF assms(3)]
  by (auto simp: startSession_def startSession_begin_def startSession_resume_def onerror_def
      stopSession_def stopSessionCleanup_def closed_def leak_free_def Let_def)

lemma closed_initial: "closed initial"
  by (simp add: closed_def initial_def)

lemma closed_sessionPromise: "closed s \<Longrightarrow> sessionPromise s = None"
  by (simp add: closed_def)

text \<open>
  C9 (as amended). When a call inside the \<open>try\<close> block of \<open>startSession\<close> throws (an audio
  context cannot be created, the microphone is refused or missing, the client cannot be
  built), the error is handed to the error observer, \<open>startSession\<close> returns \<open>false\<close>,
  every handle is null again and whatever had been acquired is released, and a new call
  of \<open>startSession\<close> is accepted. The channel itself is requested without being awaited,
  so \<open>startSession\<close> returns \<open>true\<close> once it is requested; if it then fails, the channel's
  error callback hands the error to the error observer and tears the session down to
  the same idle state, from which \<open>startSession\<close> is accepted again.
\<close>

theorem failed_start_returns_to_idle:
  "closed s \<and> no_orphan s \<longrightarrow>
     (first_fault env = Some err \<longrightarrow>
        snd (snd (startSession sys env s)) = Returned (Some False) \<and>
        SetError (Some (''Failed to start voice chat: '' @ error_message err))
          \<in> set (fst (snd (startSession sys env s))) \<and>
        closed (fst (startSession sys env s)) \<and>
        sources (fst (startSession sys env s)) = [] \<and>
        leak_free (fst (snd (startSession sys env s))) \<and>
        (first_fault env' = None \<longrightarrow>
           snd (snd (startSession sys' env' (fst (startSession sys env s)))) =
             Returned (Some True))) \<and>
     (first_fault env' = None \<longrightarrow>
        snd (snd (startSession sys' env' s)) = Returned (Some True) \<and>
        SetError (Some ''Voice chat encountered an error. Please try again.'')
          \<in> set (snd (onerror (fst (startSession sys' env' s)))) \<and>
        closed (fst (onerror (fst (startSession sys' env' s)))) \<and>
        sources (fst (onerror (fst (startSession sys' env' s)))) = [] \<and>
        leak_free (fst (snd (startSession sys' env' s)) @
                   snd (onerror (fst (startSession sys' env' s)))) \<and>
        snd (snd (startSession sys' env' (fst (onerror (fst (startSession sys' env' s)))))) =
          Returned (Some True))"
proof (intro impI conjI; elim conjE)
  assume c: "closed s" and n: "no_orphan s"
  {
    assume f: "first_fault env = Some err"
    show "snd (snd (startSession sys env s)) = Returned (Some False)"
      and "SetError (Some (''Failed to start voice chat: '' @ error_message err))
          \<in> set (fst (snd (startSession sys env s)))"
      and c': "closed (fst (startSession sys env s))"
      and "sources (fst (startSession sys env s)) = []"
      and "leak_free (fst (snd (startSession sys env s)))"
      using startSession_fails [OF c n f] by simp_all
    assume "first_fault env' = None"
    then show "snd (snd (startSession sys' env' (fst (startSession sys env s)))) =
             Returned (Some True)"
      using startSession_succeeds(1) [OF closed_sessionPromise [OF c']] by simp
  }
  assume f: "first_fault env' = None"
  show "snd (snd (startSession sys' env' s)) = Returned (Some True)"
    using startSession_succeeds(1) [OF closed_sessionPromise [OF c] f] .
  show "SetError (Some ''Voice chat encountered an error. Please try again.'')
          \<in> set (snd (onerror (fst (startSession sys' env' s))))"
    and c'': "closed (fst (onerror (fst (startSession sys' env' s))))"
    and "sources (fst (onerror (fst (startSession sys' env' s)))) = []"
    and "leak_free (fst (snd (startSession sys' env' s)) @
                   snd (onerror (fst (startSession sys' env' s))))"
    using onerror_after_start [OF c n f] by simp_all
  show "snd (snd (startSession sys' env' (fst (onerror (fst (startSession sys' env' s)))))) =
          Returned (Some True)"
    using startSession_succeeds(1) [OF closed_sessionPromise [OF c''] f] .
qed

lemma first_fault_env_denied: "first_fault env_denied = Some (Error ''Permission denied'')"
  by (simp add: first_fault_def env_denied_def env0_def)

lemma first_fault_env0: "first_fault env0 = None"
  by (simp add: first_fault_def env0_def)

lemma startSession_env_denied:
  "startSession [] env_denied initial =
     (initial,
      [SetError None, TranscriptionUpdate [] [], ContextCreated 1 16000, ContextCreated 2 24000,
       NodeConnected 3, ConsoleError ''Failed to start live session:'',
       SetError (Some ''Failed to start voice chat: Permission denied''),
       ContextClosed 1, ContextClosed 2, NodeDisconnected 3, TranscriptionUpdate [] [],
       ConsoleDebug ''Live session cleanup complete.''],
      Returned (Some False))"
  by (simp add: startSession_def startSession_begin_def startSession_resume_def
      startSession_catch_def stopSession_def stopSessionCleanup_def env_denied_def env0_def
      initial_def error_message_def Let_def)

theorem failed_start_returns_to_idle_witness:
  "closed initial \<and> no_orphan initial \<and>
   first_fault env_denied = Some (Error ''Permission denied'') \<and> first_fault env0 = None \<and>
   snd (snd (startSession [] env_denied initial)) = Returned (Some False) \<and>
   fst (startSession [] env_denied initial) = initial \<and>
   leak_free (fst (snd (startSession [] env_denied initial))) \<and>
   snd (snd (startSession [] env0 (fst (startSession [] env_denied initial)))) =
     Returned (Some True) \<and>
   closed (fst (onerror (fst (startSession [] env0 initial))))"
  using failed_start_returns_to_idle [where s = initial and env = env_denied and env' = env0
      and err = "Error ''Permission denied''" and sys = "[]" and sys' = "[]"]
    closed_initial no_orphan_initial first_fault_env_denied first_fault_env0
  by (simp add: startSession_env_denied)

text \<open>
  The claim as stated fails for a channel that fails to open: the channel has been
  requested, \<open>startSession\<close> has returned \<open>true\<close>, and the failure reaches the object
  through the error callback, which tears the session down.
\<close>

theorem channel_failure_counterexample:
  "first_fault env0 = None \<and>
   snd (snd (startSession [] env0 initial)) = Returned (Some True) \<and>
   snd (snd (startSession [] env0 initial)) \<noteq> Returned (Some False) \<and>
   fst (onerror (fst (startSession [] env0 initial))) = initial"
proof -
  have a: "snd (snd (startSession [] env0 initial)) = Returned (Some True)"
    by (simp add: startSession_def startSession_begin_def startSession_resume_def env0_def
        initial_def Let_def)
  have b: "fst (onerror (fst (startSession [] env0 initial))) = initial"
    by (simp add: startSession_def startSession_begin_def startSession_resume_def
        onerror_def stopSession_def stopSessionCleanup_def env0_def initial_def Let_def)
  show ?thesis using first_fault_env0 a b by simp
qed

end
